theory Spec2Isabelle
  imports Main
begin

section \<open>Python values and failures\<close>

text \<open>
  A board cell is a Python \<open>Optional[str]\<close>: \<open>None\<close> is \<open>None\<close>, a string \<open>s\<close> is
  \<open>Some s\<close>. The stored boards hold \<open>''X''\<close>, \<open>''O''\<close>, the empty string and \<open>None\<close>;
  nothing in the code restricts the strings, so the model does not either.
  A board is a list of rows (\<open>List[List[Optional[str]]]\<close>).
\<close>

type_synonym cell = "string option"
type_synonym board = "cell list list"

datatype py_error = IndexError | TypeError | ValidationError

text \<open>Sequencing of computations that may raise: the first exception is the result.\<close>

definition bind_result :: "'e + 'a \<Rightarrow> ('a \<Rightarrow> 'e + 'b) \<Rightarrow> 'e + 'b" where
  "bind_result m f = (case m of Inl e \<Rightarrow> Inl e | Inr a \<Rightarrow> f a)"

text \<open>
  Python list subscripts: an index \<open>i\<close> with \<open>-len \<le> i < 0\<close> counts from the end,
  an index outside \<open>-len \<le> i < len\<close> raises \<open>IndexError\<close>.
\<close>

definition py_index :: "nat \<Rightarrow> int \<Rightarrow> nat option" where
  "py_index n i =
     (if 0 \<le> i \<and> i < int n then Some (nat i)
      else if i < 0 \<and> - int n \<le> i then Some (nat (int n + i))
      else None)"

definition getitem :: "'a list \<Rightarrow> int \<Rightarrow> py_error + 'a" where
  "getitem xs i = (case py_index (length xs) i of None \<Rightarrow> Inl IndexError | Some k \<Rightarrow> Inr (xs ! k))"

definition setitem :: "'a list \<Rightarrow> int \<Rightarrow> 'a \<Rightarrow> py_error + 'a list" where
  "setitem xs i v = (case py_index (length xs) i of None \<Rightarrow> Inl IndexError | Some k \<Rightarrow> Inr (xs[k := v]))"

text \<open>\<open>board[x][y]\<close>\<close>

definition getitem2 :: "board \<Rightarrow> int \<Rightarrow> int \<Rightarrow> py_error + cell" where
  "getitem2 board x y = bind_result (getitem board x) (\<lambda>row. getitem row y)"

text \<open>Truth value of an \<open>Optional[str]\<close>: \<open>None\<close> and the empty string are false.\<close>

definition truthy :: "cell \<Rightarrow> bool" where
  "truthy c = (case c of None \<Rightarrow> False | Some s \<Rightarrow> s \<noteq> [])"

text \<open>The test \<open>cell is None or cell == ''\<close> of \<open>is_valid_move\<close> and \<open>check_draw\<close>.\<close>

definition is_empty_cell :: "cell \<Rightarrow> bool" where
  "is_empty_cell c = (c = None \<or> c = Some [])"

section \<open>core.py\<close>

definition empty_board :: board where
  "empty_board = replicate 3 (replicate 3 None)"

text \<open>
  \<open>return 0 <= x < 3 and 0 <= y < 3 and (board[x][y] is None or board[x][y] == '')\<close>:
  the subscripts are evaluated only when both range tests are true.
\<close>

definition is_valid_move :: "board \<Rightarrow> int \<Rightarrow> int \<Rightarrow> py_error + bool" where
  "is_valid_move board x y =
     (if 0 \<le> x \<and> x < 3 \<and> 0 \<le> y \<and> y < 3
      then bind_result (getitem2 board x y) (\<lambda>c. Inr (is_empty_cell c))
      else Inr False)"

text \<open>
  \<open>new_board = [row[:] for row in board]; new_board[x][y] = symbol\<close>, on values:
  every row of the new board is a copy of its own, so the assignment changes row \<open>x\<close> only.
\<close>

definition make_move :: "board \<Rightarrow> int \<Rightarrow> int \<Rightarrow> string \<Rightarrow> py_error + board" where
  "make_move board x y symbol =
     bind_result (getitem board x) (\<lambda>row.
     bind_result (setitem row y (Some symbol)) (\<lambda>row'.
     setitem board x row'))"

text \<open>The column \<open>[board[0][i], board[1][i], board[2][i]]\<close> and the two diagonals.\<close>

definition line3 :: "board \<Rightarrow> (int \<times> int) \<Rightarrow> (int \<times> int) \<Rightarrow> (int \<times> int) \<Rightarrow> py_error + cell list" where
  "line3 board p q r =
     bind_result (getitem2 board (fst p) (snd p)) (\<lambda>a.
     bind_result (getitem2 board (fst q) (snd q)) (\<lambda>b.
     bind_result (getitem2 board (fst r) (snd r)) (\<lambda>c.
     Inr [a, b, c])))"

text \<open>The loop \<open>for i in range(3)\<close> that appends row \<open>i\<close> and then column \<open>i\<close>.\<close>

fun rows_cols :: "board \<Rightarrow> int list \<Rightarrow> py_error + cell list list" where
  "rows_cols board [] = Inr []"
| "rows_cols board (i # rest) =
     (case getitem board i of Inl e \<Rightarrow> Inl e | Inr row \<Rightarrow>
      (case line3 board (0, i) (1, i) (2, i) of Inl e \<Rightarrow> Inl e | Inr col \<Rightarrow>
       (case rows_cols board rest of Inl e \<Rightarrow> Inl e | Inr ls \<Rightarrow> Inr (row # col # ls))))"

definition win_lines :: "board \<Rightarrow> py_error + cell list list" where
  "win_lines board =
     bind_result (rows_cols board [0, 1, 2]) (\<lambda>rc.
     bind_result (line3 board (0, 0) (1, 1) (2, 2)) (\<lambda>d.
     bind_result (line3 board (0, 2) (1, 1) (2, 0)) (\<lambda>a.
     Inr (rc @ [d, a]))))"

text \<open>
  \<open>for line in lines: if line[0] and line[0] == line[1] == line[2]: return line[0]\<close>,
  then \<open>return None\<close>. The chained comparison evaluates \<open>line[2]\<close> only when
  \<open>line[0] == line[1]\<close>.
\<close>

fun scan_lines :: "cell list list \<Rightarrow> py_error + cell" where
  "scan_lines [] = Inr None"
| "scan_lines (line # rest) =
     (case getitem line 0 of Inl e \<Rightarrow> Inl e | Inr a \<Rightarrow>
      if \<not> truthy a then scan_lines rest
      else (case getitem line 1 of Inl e \<Rightarrow> Inl e | Inr b \<Rightarrow>
        if a \<noteq> b then scan_lines rest
        else (case getitem line 2 of Inl e \<Rightarrow> Inl e | Inr c \<Rightarrow>
          if b = c then Inr a else scan_lines rest)))"

text \<open>The equations of the loop are unfolded one line at a time, where a proof asks for it.\<close>

declare scan_lines.simps [simp del]

definition check_win :: "board \<Rightarrow> py_error + cell" where
  "check_win board = bind_result (win_lines board) scan_lines"

text \<open>
  \<open>for row in board: if any(cell is None or cell == '' for cell in row): return False\<close>,
  then \<open>return check_win(board) is None\<close>.
\<close>

definition check_draw :: "board \<Rightarrow> py_error + bool" where
  "check_draw board =
     (if list_ex (\<lambda>row. list_ex is_empty_cell row) board then Inr False
      else bind_result (check_win board) (\<lambda>w. Inr (w = None)))"

text \<open>\<open>return 'O' if current_turn == 'X' else 'X'\<close>\<close>

definition next_turn :: "cell \<Rightarrow> string" where
  "next_turn current_turn = (if current_turn = Some ''X'' then ''O'' else ''X'')"

text \<open>A 3 by 3 board: three rows of three cells.\<close>

definition is_board :: "board \<Rightarrow> bool" where
  "is_board b = (length b = 3 \<and> list_all (\<lambda>row. length row = 3) b)"

section \<open>Lines and play sequences\<close>

text \<open>
  A symbol has a completed line on a board when one of the eight lines that \<open>check_win\<close>
  builds consists of that symbol three times.
\<close>

definition completed :: "board \<Rightarrow> string \<Rightarrow> bool" where
  "completed board s =
     (case win_lines board of Inl e \<Rightarrow> False
      | Inr ls \<Rightarrow> list_ex (\<lambda>line. line = [Some s, Some s, Some s]) ls)"

text \<open>
  A sequence of \<open>make_move\<close> calls with alternating symbols, each made only where
  \<open>is_valid_move\<close> returned \<open>True\<close>; \<open>None\<close> when some move of the sequence is not valid.
\<close>

fun alternating_play :: "board \<Rightarrow> string \<Rightarrow> (int \<times> int) list \<Rightarrow> board option" where
  "alternating_play b s [] = Some b"
| "alternating_play b s ((x, y) # ms) =
     (if is_valid_move b x y = Inr True
      then (case make_move b x y s of Inl e \<Rightarrow> None
            | Inr b' \<Rightarrow> alternating_play b' (next_turn (Some s)) ms)
      else None)"

text \<open>
  The same, where in addition no move is made on a board on which \<open>check_win\<close> returns a
  symbol: \<open>api_submit_move\<close> stores the winner with the winning move and refuses every
  later move of that game.
\<close>

fun legal_play :: "board \<Rightarrow> string \<Rightarrow> (int \<times> int) list \<Rightarrow> board option" where
  "legal_play b s [] = Some b"
| "legal_play b s ((x, y) # ms) =
     (if check_win b = Inr None \<and> is_valid_move b x y = Inr True
      then (case make_move b x y s of Inl e \<Rightarrow> None
            | Inr b' \<Rightarrow> legal_play b' (next_turn (Some s)) ms)
      else None)"

definition drawn_board :: board where
  "drawn_board =
     [[Some ''X'', Some ''O'', Some ''X''],
      [Some ''X'', Some ''O'', Some ''O''],
      [Some ''O'', Some ''X'', Some ''X'']]"

definition two_rows_board :: board where
  "two_rows_board =
     [[Some ''X'', Some ''X'', Some ''X''],
      [Some ''O'', Some ''O'', Some ''O''],
      [None, None, None]]"

definition x_wins_board :: board where
  "x_wins_board =
     [[Some ''X'', Some ''X'', Some ''X''],
      [Some ''O'', Some ''O'', None],
      [None, None, None]]"

section \<open>database.py\<close>

text \<open>
  The value of the \<open>board\<close> column as the driver hands it to Python: either a \<open>str\<close>
  holding JSON text, or an already decoded list. \<open>json.loads\<close> is a library function; a JSON
  text is represented by the value it decodes to (JSON \<open>null\<close> is \<open>None\<close>, a JSON string is
  that string), so \<open>JsonText b\<close> is the text whose decoding is \<open>b\<close>.
\<close>

datatype board_value = JsonText board | ListValue board

record game_row =
  g_id :: int
  g_player_x_id :: int
  g_player_o_id :: "int option"
  g_next_turn :: "string option"
  g_board :: board_value
  g_winner :: "string option"
  g_created_at :: nat
  g_finished_at :: "nat option"

record move_row =
  m_id :: int
  m_game_id :: int
  m_player_id :: int
  m_x :: int
  m_y :: int
  m_symbol :: string
  m_timestamp :: nat

text \<open>The statements that write to the tables, as they are executed, with their parameters.\<close>

datatype statement =
    InsertGame int "int option"
  | UpdateGameBoard int board "string option" "string option"
  | FinishGame int "string option"
  | InsertMove int int int int string

text \<open>
  The database: the tables \<open>player\<close> (id to username), \<open>game\<close> (id to row) and \<open>move\<close>
  (rows in insertion order), the value that \<open>NOW()\<close> returns, the next values of the two id
  sequences, and the write statements executed so far.
\<close>

record database =
  players :: "int \<rightharpoonup> string"
  games :: "int \<rightharpoonup> game_row"
  moves :: "move_row list"
  now :: nat
  game_seq :: int
  move_seq :: int
  executed :: "statement list"

text \<open>\<open>SELECT id, username FROM player WHERE id = $1\<close>\<close>

definition get_player :: "database \<Rightarrow> int \<Rightarrow> (int \<times> string) option" where
  "get_player db player_id = map_option (\<lambda>u. (player_id, u)) (players db player_id)"

text \<open>
  \<open>INSERT INTO game (player_x_id, player_o_id, next_turn, board, created_at)
  VALUES ($1, $2, 'X', '[["", "", ""], ["", "", ""], ["", "", ""]]', NOW()) RETURNING *\<close>.
  Modelled from the spec: the table declaration is not part of the sources; the columns the
  statement does not set (\<open>winner\<close>, \<open>finished_at\<close>) start as NULL, the new game being in
  progress, and \<open>id\<close> comes from a sequence.
\<close>

definition create_game :: "database \<Rightarrow> int \<Rightarrow> int option \<Rightarrow> game_row \<times> database" where
  "create_game db player_x_id player_o_id =
     (let row = \<lparr> g_id = game_seq db, g_player_x_id = player_x_id, g_player_o_id = player_o_id,
                   g_next_turn = Some ''X'',
                   g_board = JsonText [[Some '''', Some '''', Some ''''],
                                       [Some '''', Some '''', Some ''''],
                                       [Some '''', Some '''', Some '''']],
                   g_winner = None, g_created_at = now db, g_finished_at = None \<rparr>
      in (row, db\<lparr> games := (games db)(game_seq db \<mapsto> row),
                    game_seq := game_seq db + 1,
                    executed := executed db @ [InsertGame player_x_id player_o_id] \<rparr>))"

text \<open>\<open>SELECT * FROM game WHERE id=$1\<close>\<close>

definition get_game :: "database \<Rightarrow> int \<Rightarrow> game_row option" where
  "get_game db game_id = games db game_id"

text \<open>\<open>UPDATE game SET winner=$1, finished_at=NOW() WHERE id=$2\<close>\<close>

definition finish_game :: "database \<Rightarrow> int \<Rightarrow> string option \<Rightarrow> database" where
  "finish_game db game_id winner =
     db\<lparr> games := (case games db game_id of None \<Rightarrow> games db
                     | Some g \<Rightarrow> (games db)(game_id \<mapsto>
                         g\<lparr> g_winner := winner, g_finished_at := Some (now db) \<rparr>)),
         executed := executed db @ [FinishGame game_id winner] \<rparr>"

text \<open>\<open>UPDATE game SET board=$1, next_turn=$2, winner=$3 WHERE id=$4\<close>\<close>

definition update_game_board ::
  "database \<Rightarrow> int \<Rightarrow> board \<Rightarrow> string option \<Rightarrow> string option \<Rightarrow> database" where
  "update_game_board db game_id board next_t winner =
     db\<lparr> games := (case games db game_id of None \<Rightarrow> games db
                     | Some g \<Rightarrow> (games db)(game_id \<mapsto>
                         g\<lparr> g_board := ListValue board, g_next_turn := next_t,
                            g_winner := winner \<rparr>)),
         executed := executed db @ [UpdateGameBoard game_id board next_t winner] \<rparr>"

text \<open>
  \<open>INSERT INTO move (game_id, player_id, x, y, symbol, timestamp)
  VALUES ($1, $2, $3, $4, $5, NOW()) RETURNING *\<close>.
  Modelled from the spec: the table declaration is not part of the sources; \<open>id\<close> comes
  from a sequence and a Move record is appended once per accepted submission.
\<close>

definition add_move ::
  "database \<Rightarrow> int \<Rightarrow> int \<Rightarrow> int \<Rightarrow> int \<Rightarrow> string \<Rightarrow> move_row \<times> database" where
  "add_move db game_id player_id x y symbol =
     (let row = \<lparr> m_id = move_seq db, m_game_id = game_id, m_player_id = player_id,
                   m_x = x, m_y = y, m_symbol = symbol, m_timestamp = now db \<rparr>
      in (row, db\<lparr> moves := moves db @ [row],
                    move_seq := move_seq db + 1,
                    executed := executed db @ [InsertMove game_id player_id x y symbol] \<rparr>))"

definition is_game_update :: "statement \<Rightarrow> bool" where
  "is_game_update st =
     (case st of UpdateGameBoard i b t w \<Rightarrow> True | FinishGame i w \<Rightarrow> True | _ \<Rightarrow> False)"

definition is_move_insert :: "statement \<Rightarrow> bool" where
  "is_move_insert st = (case st of InsertMove g p x y s \<Rightarrow> True | _ \<Rightarrow> False)"

section \<open>main.py\<close>

text \<open>
  \<open>_deserialize_board\<close>: \<open>if isinstance(board, str): return json.loads(board)\<close>, else
  \<open>return board\<close>.
\<close>

definition deserialize_board :: "board_value \<Rightarrow> board" where
  "deserialize_board v = (case v of JsonText b \<Rightarrow> b | ListValue b \<Rightarrow> b)"

record move_create =
  mc_player_id :: int
  mc_x :: int
  mc_y :: int

record player_out =
  po_id :: int
  po_username :: string

record move_out =
  mo_id :: int
  mo_game_id :: int
  mo_player :: player_out
  mo_x :: int
  mo_y :: int
  mo_symbol :: string
  mo_timestamp :: nat

text \<open>
  What a request ends with when it does not return: an \<open>HTTPException\<close> with its status code
  and detail, or an exception that nothing catches.
\<close>

datatype failure = HTTPException nat string | Uncaught py_error

definition not_found :: failure where
  "not_found = HTTPException 404 ''Game not found''"

definition not_a_participant :: failure where
  "not_a_participant = HTTPException 403 ''Player not part of this game''"

definition game_finished :: failure where
  "game_finished = HTTPException 400 ''Game already finished''"

definition not_your_turn :: failure where
  "not_your_turn = HTTPException 403 ''Not your turn''"

definition invalid_move :: failure where
  "invalid_move = HTTPException 400 ''Invalid move''"

text \<open>
  \<open>api_submit_move\<close> is modelled in parts: the checks, the computation of the new state,
  the writes. The values computed between the last check and the first write:
\<close>

record pending =
  pd_player_id :: int
  pd_x :: int
  pd_y :: int
  pd_symbol :: string
  pd_board :: board
  pd_next_t :: "string option"
  pd_winner_str :: "string option"
  pd_finished :: bool

text \<open>
  The participant test \<open>move.player_id in [g["player_x_id"], g.get("player_o_id")]\<close> and the
  symbol \<open>'X' if move.player_id == g["player_x_id"] else 'O'\<close>.
\<close>

definition is_participant :: "game_row \<Rightarrow> move_create \<Rightarrow> bool" where
  "is_participant g mv = (Some (mc_player_id mv) \<in> set [Some (g_player_x_id g), g_player_o_id g])"

definition player_symbol :: "game_row \<Rightarrow> move_create \<Rightarrow> string" where
  "player_symbol g mv = (if mc_player_id mv = g_player_x_id g then ''X'' else ''O'')"

text \<open>
  The new state, once the checks have passed: \<open>make_move\<close>, \<open>check_win\<close>, \<open>check_draw\<close>,
  \<open>finished\<close>, \<open>next_t\<close> and \<open>winner_str\<close>. An \<open>IndexError\<close> of the board functions is not
  caught.
\<close>

definition submit_move_compute :: "game_row \<Rightarrow> move_create \<Rightarrow> board \<Rightarrow> failure + pending" where
  "submit_move_compute g mv board =
     (case make_move board (mc_x mv) (mc_y mv) (player_symbol g mv) of
        Inl e \<Rightarrow> Inl (Uncaught e)
      | Inr board' \<Rightarrow>
        (case check_win board' of
           Inl e \<Rightarrow> Inl (Uncaught e)
         | Inr winner \<Rightarrow>
           (case check_draw board' of
              Inl e \<Rightarrow> Inl (Uncaught e)
            | Inr draw \<Rightarrow>
              let finished = (winner \<noteq> None \<or> draw);
                  next_t = (if finished then None else Some (next_turn (g_next_turn g)));
                  winner_str = (if truthy winner then winner
                                else if draw then Some ''Draw'' else None)
              in Inr \<lparr> pd_player_id = mc_player_id mv, pd_x = mc_x mv, pd_y = mc_y mv,
                        pd_symbol = player_symbol g mv, pd_board = board', pd_next_t = next_t,
                        pd_winner_str = winner_str, pd_finished = finished \<rparr>)))"

text \<open>
  The checks on the loaded row \<open>g\<close>, in the order of the source: participant, winner, turn,
  validity of the move. Nothing here touches the database.
\<close>

definition submit_move_check :: "game_row \<Rightarrow> move_create \<Rightarrow> failure + pending" where
  "submit_move_check g mv =
     (if \<not> is_participant g mv then Inl not_a_participant
      else
        let board = deserialize_board (g_board g) in
        if truthy (g_winner g) then Inl game_finished
        else if g_next_turn g \<noteq> Some (player_symbol g mv) then Inl not_your_turn
        else
          (case is_valid_move board (mc_x mv) (mc_y mv) of
             Inl e \<Rightarrow> Inl (Uncaught e)
           | Inr valid \<Rightarrow>
             if \<not> valid then Inl invalid_move
             else submit_move_compute g mv board))"

text \<open>
  The writes and the response: \<open>update_game_board\<close>, then \<open>finish_game\<close> when
  \<open>finished and winner_str\<close>, then \<open>add_move\<close>, then \<open>get_player\<close> for the response;
  \<open>PlayerOut(**None)\<close> raises \<open>TypeError\<close>.
\<close>

definition submit_move_persist ::
  "database \<Rightarrow> int \<Rightarrow> pending \<Rightarrow> (failure + move_out) \<times> database" where
  "submit_move_persist db game_id p =
     (let db1 = update_game_board db game_id (pd_board p) (pd_next_t p) (pd_winner_str p);
          db2 = (if pd_finished p \<and> truthy (pd_winner_str p)
                 then finish_game db1 game_id (pd_winner_str p) else db1);
          (mov, db3) = add_move db2 game_id (pd_player_id p) (pd_x p) (pd_y p) (pd_symbol p)
      in case get_player db3 (pd_player_id p) of
           None \<Rightarrow> (Inl (Uncaught TypeError), db3)
         | Some player_obj \<Rightarrow>
             (Inr \<lparr> mo_id = m_id mov, mo_game_id = game_id,
                     mo_player = \<lparr> po_id = fst player_obj, po_username = snd player_obj \<rparr>,
                     mo_x = m_x mov, mo_y = m_y mov, mo_symbol = m_symbol mov,
                     mo_timestamp = m_timestamp mov \<rparr>, db3))"

text \<open>The part of a request before its first write: \<open>get_game\<close> and the checks.\<close>

definition submit_move_read :: "database \<Rightarrow> int \<Rightarrow> move_create \<Rightarrow> failure + pending" where
  "submit_move_read db game_id mv =
     (case get_game db game_id of
        None \<Rightarrow> Inl not_found
      | Some g \<Rightarrow> submit_move_check g mv)"

definition api_submit_move ::
  "database \<Rightarrow> int \<Rightarrow> move_create \<Rightarrow> (failure + move_out) \<times> database" where
  "api_submit_move db game_id mv =
     (case submit_move_read db game_id mv of
        Inl e \<Rightarrow> (Inl e, db)
      | Inr p \<Rightarrow> submit_move_persist db game_id p)"

text \<open>
  \<open>models.GameOut\<close> and \<open>models.GameCreate\<close>. The fields of \<open>GameOut\<close> are validated when
  the object is built: \<open>board\<close> is declared \<open>List[List[Optional[Literal['X', 'O']]]]\<close>,
  \<open>next_turn\<close> is \<open>Optional[Literal['X', 'O']]\<close> and \<open>winner\<close> is
  \<open>Optional[Literal['X', 'O', 'Draw']]\<close>; a value outside its declared type raises
  \<open>ValidationError\<close>.
\<close>

record game_create =
  gc_player_x_id :: int
  gc_player_o_id :: "int option"

record game_out =
  go_id :: int
  go_player_x :: player_out
  go_player_o :: "player_out option"
  go_board :: board
  go_next_turn :: "string option"
  go_winner :: "string option"
  go_created_at :: nat
  go_finished_at :: "nat option"

definition symbol_or_none :: "cell \<Rightarrow> bool" where
  "symbol_or_none c = (c = None \<or> c = Some ''X'' \<or> c = Some ''O'')"

definition GameOut ::
  "int \<Rightarrow> player_out \<Rightarrow> player_out option \<Rightarrow> board \<Rightarrow> string option \<Rightarrow> string option
     \<Rightarrow> nat \<Rightarrow> nat option \<Rightarrow> py_error + game_out" where
  "GameOut i player_x player_o board turn winner created_at finished_at =
     (if list_all (list_all symbol_or_none) board \<and> symbol_or_none turn
         \<and> (symbol_or_none winner \<or> winner = Some ''Draw'')
      then Inr \<lparr> go_id = i, go_player_x = player_x, go_player_o = player_o, go_board = board,
                 go_next_turn = turn, go_winner = winner, go_created_at = created_at,
                 go_finished_at = finished_at \<rparr>
      else Inl ValidationError)"

text \<open>The decimal digits of an integer, for \<open>f"Player {pid} not found"\<close>.\<close>

function str_nat :: "nat \<Rightarrow> string" where
  "str_nat n =
     (if n < 10 then [char_of (48 + n)] else str_nat (n div 10) @ [char_of (48 + n mod 10)])"
  by pat_completeness auto
termination
  by (relation "measure id") auto

declare str_nat.simps [simp del]

definition str_int :: "int \<Rightarrow> string" where
  "str_int i = (if i < 0 then ''-'' @ str_nat (nat (- i)) else str_nat (nat i))"

text \<open>
  The loop \<open>for pid in [...]: if pid and not await database.get_player(pid): raise ...\<close>:
  the first id that is neither \<open>None\<close> nor 0 and has no row in \<open>player\<close>.
\<close>

fun first_missing_player :: "database \<Rightarrow> int option list \<Rightarrow> int option" where
  "first_missing_player db [] = None"
| "first_missing_player db (None # rest) = first_missing_player db rest"
| "first_missing_player db (Some pid # rest) =
     (if pid \<noteq> 0 \<and> get_player db pid = None then Some pid
      else first_missing_player db rest)"

text \<open>
  \<open>api_create_game\<close>: the player checks, \<open>create_game\<close>, the two \<open>get_player\<close> calls
  (\<open>oinfo\<close> is \<open>None\<close> when \<open>player_o_id\<close> is \<open>None\<close> or 0), then \<open>GameOut(...)\<close> on the
  board that \<open>_deserialize_board\<close> returns. \<open>PlayerOut(**None)\<close> raises \<open>TypeError\<close>.
\<close>

definition api_create_game ::
  "database \<Rightarrow> game_create \<Rightarrow> (failure + game_out) \<times> database" where
  "api_create_game db game_req =
     (case first_missing_player db [Some (gc_player_x_id game_req), gc_player_o_id game_req] of
        Some pid \<Rightarrow>
          (Inl (HTTPException 404 (''Player '' @ str_int pid @ '' not found'')), db)
      | None \<Rightarrow>
          (case create_game db (gc_player_x_id game_req) (gc_player_o_id game_req) of
             (g, db1) \<Rightarrow>
               let xinfo = get_player db1 (g_player_x_id g);
                   oinfo = (case g_player_o_id g of
                              None \<Rightarrow> None
                            | Some o_id \<Rightarrow> if o_id \<noteq> 0 then get_player db1 o_id else None)
               in
               (case xinfo of
                  None \<Rightarrow> (Inl (Uncaught TypeError), db1)
                | Some x \<Rightarrow>
                    (case GameOut (g_id g) \<lparr> po_id = fst x, po_username = snd x \<rparr>
                            (map_option (\<lambda>pl. \<lparr> po_id = fst pl, po_username = snd pl \<rparr>) oinfo)
                            (deserialize_board (g_board g)) (g_next_turn g) (g_winner g)
                            (g_created_at g) (g_finished_at g) of
                       Inl e \<Rightarrow> (Inl (Uncaught e), db1)
                     | Inr out \<Rightarrow> (Inr out, db1)))))"

section \<open>The move on list objects\<close>

text \<open>
  Python lists are objects: a board is a list object whose items refer to row objects, and an
  assignment \<open>new_board[x][y] = symbol\<close> changes the row object in place. To say what
  \<open>make_move\<close> does to the board it is given, the lists live in a store, from addresses to
  objects; \<open>fresh\<close> is the next address that an allocation returns.
\<close>

datatype pyobj = CellList "cell list" | RowList "nat list"

record store =
  objs :: "nat \<rightharpoonup> pyobj"
  fresh :: nat

definition alloc :: "store \<Rightarrow> pyobj \<Rightarrow> nat \<times> store" where
  "alloc st ob = (fresh st, st\<lparr> objs := (objs st)(fresh st \<mapsto> ob), fresh := Suc (fresh st) \<rparr>)"

text \<open>\<open>[row[:] for row in board]\<close>: a new list object for every row, with the same cells.\<close>

fun copy_rows :: "store \<Rightarrow> nat list \<Rightarrow> py_error + nat list \<times> store" where
  "copy_rows st [] = Inr ([], st)"
| "copy_rows st (r # rs) =
     (case objs st r of
        Some (CellList cs) \<Rightarrow>
          (case alloc st (CellList cs) of (a, st1) \<Rightarrow>
             (case copy_rows st1 rs of Inl e \<Rightarrow> Inl e
              | Inr (as, st2) \<Rightarrow> Inr (a # as, st2)))
      | _ \<Rightarrow> Inl TypeError)"

text \<open>
  \<open>make_move\<close> with the board given by its address: the rows are copied, the new board is
  allocated, then item \<open>y\<close> of row object \<open>new_board[x]\<close> is assigned in place. The result
  is the address of the new board.
\<close>

definition make_move_store ::
  "store \<Rightarrow> nat \<Rightarrow> int \<Rightarrow> int \<Rightarrow> string \<Rightarrow> py_error + nat \<times> store" where
  "make_move_store st board x y symbol =
     (case objs st board of
        Some (RowList rs) \<Rightarrow>
          (case copy_rows st rs of Inl e \<Rightarrow> Inl e
           | Inr (new_rows, st1) \<Rightarrow>
             (case alloc st1 (RowList new_rows) of (new_board, st2) \<Rightarrow>
                (case getitem new_rows x of Inl e \<Rightarrow> Inl e
                 | Inr r \<Rightarrow>
                   (case objs st2 r of
                      Some (CellList cs) \<Rightarrow>
                        (case setitem cs y (Some symbol) of Inl e \<Rightarrow> Inl e
                         | Inr cs' \<Rightarrow>
                             Inr (new_board, st2\<lparr> objs := (objs st2)(r \<mapsto> CellList cs') \<rparr>))
                    | _ \<Rightarrow> Inl TypeError))))
      | _ \<Rightarrow> Inl TypeError)"

text \<open>The board value that an address stands for.\<close>

fun read_rows :: "store \<Rightarrow> nat list \<Rightarrow> board option" where
  "read_rows st [] = Some []"
| "read_rows st (r # rs) =
     (case objs st r of
        Some (CellList cs) \<Rightarrow> map_option (\<lambda>b. cs # b) (read_rows st rs)
      | _ \<Rightarrow> None)"

definition board_at :: "store \<Rightarrow> nat \<Rightarrow> board option" where
  "board_at st a = (case objs st a of Some (RowList rs) \<Rightarrow> read_rows st rs | _ \<Rightarrow> None)"

text \<open>The board at \<open>a\<close> and its rows are objects that exist: their addresses are below \<open>fresh\<close>.\<close>

definition board_allocated :: "store \<Rightarrow> nat \<Rightarrow> bool" where
  "board_allocated st a =
     (a < fresh st \<and>
      (case objs st a of Some (RowList rs) \<Rightarrow> list_all (\<lambda>r. r < fresh st) rs | _ \<Rightarrow> False))"

definition sample_store :: store where
  "sample_store =
     \<lparr> objs = [0 \<mapsto> CellList [Some ''X'', None, None], 1 \<mapsto> CellList [None, Some ''O'', None],
                2 \<mapsto> CellList [None, None, None], 3 \<mapsto> RowList [0, 1, 2]],
       fresh = 4 \<rparr>"

section \<open>Terms of the submission protocol\<close>

text \<open>The five rejections of \<open>api_submit_move\<close>.\<close>

definition is_rejection :: "failure \<Rightarrow> bool" where
  "is_rejection e =
     (e \<in> {not_found, not_a_participant, game_finished, not_your_turn, invalid_move})"

text \<open>
  Concurrent requests. \<open>api_submit_move\<close> is a coroutine: it gives up control at each
  \<open>await\<close>, and another request may run until it comes back. Between two awaits it runs
  alone. A handler is therefore at one of these places: before \<open>get_game\<close>; before
  \<open>update_game_board\<close>, the checks passed and the new state computed; before \<open>finish_game\<close>;
  before \<open>add_move\<close>; before \<open>get_player\<close>; or it has returned or raised.
\<close>

datatype handler =
    AtGetGame move_create
  | AtUpdate pending
  | AtFinish pending
  | AtAddMove pending
  | AtGetPlayer pending move_row
  | Returned "failure + move_out"

text \<open>One handler runs from its await to the next one.\<close>

fun handler_step :: "int \<Rightarrow> database \<Rightarrow> handler \<Rightarrow> handler \<times> database" where
  "handler_step game_id db (AtGetGame mv) =
     (case submit_move_read db game_id mv of
        Inl e \<Rightarrow> (Returned (Inl e), db)
      | Inr p \<Rightarrow> (AtUpdate p, db))"
| "handler_step game_id db (AtUpdate p) =
     (if pd_finished p \<and> truthy (pd_winner_str p) then AtFinish p else AtAddMove p,
      update_game_board db game_id (pd_board p) (pd_next_t p) (pd_winner_str p))"
| "handler_step game_id db (AtFinish p) =
     (AtAddMove p, finish_game db game_id (pd_winner_str p))"
| "handler_step game_id db (AtAddMove p) =
     (case add_move db game_id (pd_player_id p) (pd_x p) (pd_y p) (pd_symbol p) of
        (mov, db') \<Rightarrow> (AtGetPlayer p mov, db'))"
| "handler_step game_id db (AtGetPlayer p mov) =
     (case get_player db (pd_player_id p) of
        None \<Rightarrow> (Returned (Inl (Uncaught TypeError)), db)
      | Some player_obj \<Rightarrow>
          (Returned (Inr \<lparr> mo_id = m_id mov, mo_game_id = game_id,
                     mo_player = \<lparr> po_id = fst player_obj, po_username = snd player_obj \<rparr>,
                     mo_x = m_x mov, mo_y = m_y mov, mo_symbol = m_symbol mov,
                     mo_timestamp = m_timestamp mov \<rparr>), db))"
| "handler_step game_id db (Returned r) = (Returned r, db)"

text \<open>
  Two requests for the same game under a schedule: the list says, step by step, which of the
  two handlers runs next (\<open>True\<close> the first, \<open>False\<close> the second). Every order of the
  awaits of the two requests is a schedule.
\<close>

fun run_schedule ::
  "int \<Rightarrow> bool list \<Rightarrow> handler \<times> handler \<times> database \<Rightarrow> handler \<times> handler \<times> database" where
  "run_schedule game_id [] c = c"
| "run_schedule game_id (first # s) (h1, h2, db) =
     (if first
      then (case handler_step game_id db h1 of (h1', db') \<Rightarrow> run_schedule game_id s (h1', h2, db'))
      else (case handler_step game_id db h2 of (h2', db') \<Rightarrow> run_schedule game_id s (h1, h2', db')))"

text \<open>The write statements a handler has still to execute, in its own order.\<close>

fun pending_writes :: "int \<Rightarrow> handler \<Rightarrow> statement list" where
  "pending_writes game_id (AtUpdate p) =
     UpdateGameBoard game_id (pd_board p) (pd_next_t p) (pd_winner_str p)
     # (if pd_finished p \<and> truthy (pd_winner_str p)
        then [FinishGame game_id (pd_winner_str p)] else [])
     @ [InsertMove game_id (pd_player_id p) (pd_x p) (pd_y p) (pd_symbol p)]"
| "pending_writes game_id (AtFinish p) =
     [FinishGame game_id (pd_winner_str p),
      InsertMove game_id (pd_player_id p) (pd_x p) (pd_y p) (pd_symbol p)]"
| "pending_writes game_id (AtAddMove p) =
     [InsertMove game_id (pd_player_id p) (pd_x p) (pd_y p) (pd_symbol p)]"
| "pending_writes game_id h = []"

text \<open>The effect of one write statement on the database.\<close>

fun execute :: "database \<Rightarrow> statement \<Rightarrow> database" where
  "execute db (InsertGame player_x_id player_o_id) = snd (create_game db player_x_id player_o_id)"
| "execute db (UpdateGameBoard game_id board next_t winner) =
     update_game_board db game_id board next_t winner"
| "execute db (FinishGame game_id winner) = finish_game db game_id winner"
| "execute db (InsertMove game_id player_id x y symbol) =
     snd (add_move db game_id player_id x y symbol)"

text \<open>The awaits a handler has still before it, at most.\<close>

fun steps_left :: "handler \<Rightarrow> nat" where
  "steps_left (AtGetGame mv) = 5"
| "steps_left (AtUpdate p) = 4"
| "steps_left (AtFinish p) = 3"
| "steps_left (AtAddMove p) = 2"
| "steps_left (AtGetPlayer p mov) = 1"
| "steps_left (Returned r) = 0"

text \<open>
  A handler past its checks whose player has a row in the \<open>player\<close> table \<open>ps\<close>, or one
  that has returned its move.
\<close>

fun on_course :: "(int \<rightharpoonup> string) \<Rightarrow> handler \<Rightarrow> bool" where
  "on_course ps (AtGetGame mv) = False"
| "on_course ps (AtUpdate p) = (ps (pd_player_id p) \<noteq> None)"
| "on_course ps (AtFinish p) = (ps (pd_player_id p) \<noteq> None)"
| "on_course ps (AtAddMove p) = (ps (pd_player_id p) \<noteq> None)"
| "on_course ps (AtGetPlayer p mov) = (ps (pd_player_id p) \<noteq> None)"
| "on_course ps (Returned r) = (\<not> isl r)"

text \<open>The statements a call has executed: those of \<open>db'\<close> after the ones of \<open>db\<close>.\<close>

definition new_statements :: "database \<Rightarrow> database \<Rightarrow> statement list" where
  "new_statements db db' = drop (length (executed db)) (executed db')"

section \<open>Sample data\<close>

definition sample_game :: "board \<Rightarrow> string option \<Rightarrow> string option \<Rightarrow> game_row" where
  "sample_game b turn winner =
     \<lparr> g_id = 1, g_player_x_id = 10, g_player_o_id = Some 20, g_next_turn = turn,
       g_board = ListValue b, g_winner = winner, g_created_at = 5, g_finished_at = None \<rparr>"

definition sample_db :: "game_row \<Rightarrow> database" where
  "sample_db g =
     \<lparr> players = [10 \<mapsto> ''ann'', 20 \<mapsto> ''bob'', 30 \<mapsto> ''eve''], games = [1 \<mapsto> g], moves = [],
       now = 7, game_seq = 2, move_seq = 1, executed = [] \<rparr>"

definition move_by :: "int \<Rightarrow> int \<Rightarrow> int \<Rightarrow> move_create" where
  "move_by p x y = \<lparr> mc_player_id = p, mc_x = x, mc_y = y \<rparr>"

definition x_to_win_board :: board where
  "x_to_win_board =
     [[Some ''X'', Some ''X'', None],
      [Some ''O'', Some ''O'', None],
      [None, None, None]]"

section \<open>Subscripts on 3 by 3 boards\<close>

lemma getitem_in_range: "0 \<le> i \<Longrightarrow> i < int (length xs) \<Longrightarrow> getitem xs i = Inr (xs ! nat i)"
  by (simp add: getitem_def py_index_def)

lemma setitem_in_range: "0 \<le> i \<Longrightarrow> i < int (length xs) \<Longrightarrow> setitem xs i v = Inr (xs[nat i := v])"
  by (simp add: setitem_def py_index_def)

lemma is_board_row: "is_board b \<Longrightarrow> k < 3 \<Longrightarrow> length (b ! k) = 3"
  by (simp add: is_board_def list_all_length)

lemma empty_board_cells:
  "empty_board = [[None, None, None], [None, None, None], [None, None, None]]"
  by (simp add: empty_board_def numeral_3_eq_3)

lemma is_board_empty_board: "is_board empty_board"
  by (simp add: is_board_def empty_board_cells)

lemma getitem2_board:
  "is_board b \<Longrightarrow> 0 \<le> x \<Longrightarrow> x < 3 \<Longrightarrow> 0 \<le> y \<Longrightarrow> y < 3 \<Longrightarrow> getitem2 b x y = Inr (b ! nat x ! nat y)"
proof -
  assume b: "is_board b" and x: "0 \<le> x" "x < 3" and y: "0 \<le> y" "y < 3"
  from b have lb: "length b = 3" by (simp add: is_board_def)
  from x have "nat x < 3" by simp
  with b have lr: "length (b ! nat x) = 3" by (rule is_board_row)
  from x lb have "getitem b x = Inr (b ! nat x)" by (simp add: getitem_in_range)
  moreover from y lr have "getitem (b ! nat x) y = Inr (b ! nat x ! nat y)" by (simp add: getitem_in_range)
  ultimately show ?thesis by (simp add: getitem2_def bind_result_def)
qed

lemma is_board_cases:
  assumes "is_board b"
  obtains r0 r1 r2 where "b = [r0, r1, r2]" "length r0 = 3" "length r1 = 3" "length r2 = 3"
  using assms unfolding is_board_def
  by (cases b; cases "tl b"; cases "tl (tl b)"; cases "tl (tl (tl b))") auto

lemma len3: "length r = 3 \<Longrightarrow> \<exists>a b c. r = [a, b, c]"
  by (cases r; cases "tl r"; cases "tl (tl r)") auto

lemma is_board_cells:
  assumes "is_board b"
  obtains a0 a1 a2 b0 b1 b2 c0 c1 c2 where "b = [[a0, a1, a2], [b0, b1, b2], [c0, c1, c2]]"
  using assms by (elim is_board_cases) (metis len3)

section \<open>The eight lines of a 3 by 3 board\<close>

lemma win_lines_cells:
  "win_lines [[a0, a1, a2], [b0, b1, b2], [c0, c1, c2]] =
     Inr [[a0, a1, a2], [a0, b0, c0], [b0, b1, b2], [a1, b1, c1], [c0, c1, c2], [a2, b2, c2],
          [a0, b1, c2], [a2, b1, c0]]"
  by (simp add: win_lines_def line3_def getitem2_def getitem_def py_index_def bind_result_def)

lemma check_win_cells:
  "check_win [[a0, a1, a2], [b0, b1, b2], [c0, c1, c2]] =
     scan_lines [[a0, a1, a2], [a0, b0, c0], [b0, b1, b2], [a1, b1, c1], [c0, c1, c2],
          [a2, b2, c2], [a0, b1, c2], [a2, b1, c0]]"
  by (simp add: check_win_def win_lines_cells bind_result_def)

lemma scan_lines_total:
  "\<forall>l \<in> set ls. length l = 3 \<Longrightarrow> \<exists>w. scan_lines ls = Inr w"
proof (induction ls)
  case Nil
  show ?case by (simp add: scan_lines.simps)
next
  case (Cons l ls)
  then obtain a b c where l: "l = [a, b, c]" using len3 by fastforce
  from Cons obtain w where w: "scan_lines ls = Inr w" by auto
  show ?case by (simp add: scan_lines.simps l w getitem_def py_index_def)
qed

lemma check_win_total: "is_board b \<Longrightarrow> \<exists>w. check_win b = Inr w"
proof -
  assume "is_board b"
  then obtain a0 a1 a2 b0 b1 b2 c0 c1 c2 where b: "b = [[a0, a1, a2], [b0, b1, b2], [c0, c1, c2]]"
    by (rule is_board_cells)
  have "\<exists>w. scan_lines [[a0, a1, a2], [a0, b0, c0], [b0, b1, b2], [a1, b1, c1], [c0, c1, c2],
          [a2, b2, c2], [a0, b1, c2], [a2, b1, c0]] = Inr w"
    by (rule scan_lines_total) simp
  then show ?thesis by (simp add: b check_win_cells)
qed

section \<open>Board model: helper lemmas\<close>

lemma is_valid_move_board:
  assumes "is_board b"
  shows "is_valid_move b x y =
           Inr (0 \<le> x \<and> x < 3 \<and> 0 \<le> y \<and> y < 3 \<and> is_empty_cell (b ! nat x ! nat y))"
proof (cases "0 \<le> x \<and> x < 3 \<and> 0 \<le> y \<and> y < 3")
  case True
  with assms have "getitem2 b x y = Inr (b ! nat x ! nat y)" by (simp add: getitem2_board)
  with True show ?thesis by (simp add: is_valid_move_def bind_result_def)
next
  case False
  then show ?thesis by (auto simp add: is_valid_move_def)
qed

lemma make_move_board:
  assumes "is_board b" "0 \<le> x" "x < 3" "0 \<le> y" "y < 3"
  shows "make_move b x y s = Inr (b[nat x := (b ! nat x)[nat y := Some s]])"
proof -
  from assms have lb: "length b = 3" by (simp add: is_board_def)
  from assms have "nat x < 3" by simp
  with assms(1) have lr: "length (b ! nat x) = 3" by (rule is_board_row)
  from assms lb have 1: "getitem b x = Inr (b ! nat x)" by (simp add: getitem_in_range)
  from assms lr have 2: "setitem (b ! nat x) y (Some s) = Inr ((b ! nat x)[nat y := Some s])"
    by (simp add: setitem_in_range)
  from assms lb have 3: "setitem b x r = Inr (b[nat x := r])" for r by (simp add: setitem_in_range)
  show ?thesis by (simp add: make_move_def bind_result_def 1 2 3)
qed

lemma is_board_make_move:
  assumes "is_board b" "make_move b x y s = Inr b'" "0 \<le> x" "x < 3" "0 \<le> y" "y < 3"
  shows "is_board b'"
proof -
  from assms have b': "b' = b[nat x := (b ! nat x)[nat y := Some s]]" by (simp add: make_move_board)
  from assms have nx: "nat x < 3" by simp
  from assms(1) have lb: "length b = 3" and rows: "\<And>k. k < 3 \<Longrightarrow> length (b ! k) = 3"
    by (simp_all add: is_board_def list_all_length)
  have "length (b' ! k) = 3" if "k < 3" for k
    using that nx lb rows [of k] rows [of "nat x"] by (simp add: b' nth_list_update)
  with lb show ?thesis by (simp add: is_board_def list_all_length b')
qed

lemma scan_lines_Cons3:
  "scan_lines ([a, b, c] # rest) = (if truthy a \<and> a = b \<and> b = c then Inr a else scan_lines rest)"
  by (auto simp add: scan_lines.simps getitem_def py_index_def)

lemma scan_lines_None:
  "\<forall>l \<in> set ls. length l = 3 \<Longrightarrow>
     scan_lines ls = Inr None \<Longrightarrow> l \<in> set ls \<Longrightarrow> truthy (Some s) \<Longrightarrow> l \<noteq> [Some s, Some s, Some s]"
proof (induction ls)
  case Nil
  then show ?case by simp
next
  case (Cons k ls)
  from Cons.prems(1) have "length k = 3" by simp
  then obtain a b c where k: "k = [a, b, c]" using len3 by blast
  from Cons.prems(2) have nk: "\<not> (truthy a \<and> a = b \<and> b = c)"
    unfolding k scan_lines_Cons3 by (auto simp add: truthy_def split: if_splits)
  with Cons.prems(2) have rest: "scan_lines ls = Inr None"
    unfolding k scan_lines_Cons3 by simp
  show ?case
  proof (cases "l = k")
    case True
    with nk Cons.prems(4) show ?thesis by (auto simp add: k)
  next
    case False
    with Cons.prems(3) have "l \<in> set ls" by simp
    moreover from Cons.prems(1) have "\<forall>l \<in> set ls. length l = 3" by simp
    ultimately show ?thesis using Cons.IH rest Cons.prems(4) by blast
  qed
qed

lemma completed_cells:
  "completed [[a0, a1, a2], [b0, b1, b2], [c0, c1, c2]] s =
     (let l = [Some s, Some s, Some s] in
      [a0, a1, a2] = l \<or> [a0, b0, c0] = l \<or> [b0, b1, b2] = l \<or> [a1, b1, c1] = l \<or>
      [c0, c1, c2] = l \<or> [a2, b2, c2] = l \<or> [a0, b1, c2] = l \<or> [a2, b1, c0] = l)"
  unfolding completed_def win_lines_cells by (simp add: Let_def)

lemma no_win_not_completed:
  assumes "is_board b" "check_win b = Inr None" "truthy (Some s)"
  shows "\<not> completed b s"
proof -
  from assms(1) obtain a0 a1 a2 b0 b1 b2 c0 c1 c2 where b: "b = [[a0, a1, a2], [b0, b1, b2], [c0, c1, c2]]"
    by (rule is_board_cells)
  let ?ls = "[[a0, a1, a2], [a0, b0, c0], [b0, b1, b2], [a1, b1, c1], [c0, c1, c2],
          [a2, b2, c2], [a0, b1, c2], [a2, b1, c0]]"
  from assms(2) have sc: "scan_lines ?ls = Inr None"
    by (simp add: b check_win_cells)
  have len: "\<forall>l \<in> set ?ls. length l = 3" by simp
  have "l \<in> set ?ls \<Longrightarrow> l \<noteq> [Some s, Some s, Some s]" for l
    using scan_lines_None [OF len sc _ assms(3)] by blast
  then show ?thesis
    unfolding completed_def b win_lines_cells by (simp add: list_ex_iff)
qed

lemma in_range3: "0 \<le> (x::int) \<Longrightarrow> x < 3 \<Longrightarrow> x = 0 \<or> x = 1 \<or> x = 2"
  by arith

text \<open>A line completed for a symbol other than the one just placed was completed before.\<close>

lemma completed_before_move:
  assumes b: "is_board b" and mv: "make_move b x y s = Inr b'"
    and rng: "0 \<le> x" "x < 3" "0 \<le> y" "y < 3" and ts: "t \<noteq> s" and c: "completed b' t"
  shows "completed b t"
proof -
  from b obtain a0 a1 a2 b0 b1 b2 c0 c1 c2 where bc: "b = [[a0, a1, a2], [b0, b1, b2], [c0, c1, c2]]"
    by (rule is_board_cells)
  from b mv rng have b': "b' = b[nat x := (b ! nat x)[nat y := Some s]]"
    by (simp add: make_move_board)
  from rng have "x = 0 \<or> x = 1 \<or> x = 2" "y = 0 \<or> y = 1 \<or> y = 2" by (simp_all add: in_range3)
  then show ?thesis using c ts unfolding b' bc
    by (elim disjE) (auto simp add: completed_cells Let_def)
qed

lemma move_keeps_single_winner:
  assumes b: "is_board b" and nw: "check_win b = Inr None" and mv: "make_move b x y s = Inr b'"
    and rng: "0 \<le> x" "x < 3" "0 \<le> y" "y < 3"
  shows "\<not> (completed b' ''X'' \<and> completed b' ''O'')"
proof
  assume both: "completed b' ''X'' \<and> completed b' ''O''"
  have tx: "truthy (Some ''X'')" and to: "truthy (Some ''O'')" by (simp_all add: truthy_def)
  show False
  proof (cases "s = ''X''")
    case True
    then have "''O'' \<noteq> s" by simp
    with b mv rng both have "completed b ''O''" by (blast intro: completed_before_move)
    with no_win_not_completed [OF b nw to] show False by simp
  next
    case False
    then have "''X'' \<noteq> s" by simp
    with b mv rng both have "completed b ''X''" by (blast intro: completed_before_move)
    with no_win_not_completed [OF b nw tx] show False by simp
  qed
qed

lemma legal_play_invariant:
  "legal_play b s ms = Some b' \<Longrightarrow> is_board b \<Longrightarrow>
     \<not> (completed b ''X'' \<and> completed b ''O'') \<Longrightarrow>
     is_board b' \<and> \<not> (completed b' ''X'' \<and> completed b' ''O'')"
proof (induction b s ms rule: legal_play.induct)
  case (1 b s)
  then show ?case by simp
next
  case (2 b s x y ms)
  from "2.prems"(1) have nw: "check_win b = Inr None" and v: "is_valid_move b x y = Inr True"
    by (simp_all split: if_splits)
  from v "2.prems"(2) have rng: "0 \<le> x" "x < 3" "0 \<le> y" "y < 3"
    by (simp_all add: is_valid_move_board)
  with "2.prems"(2) obtain b1 where mv: "make_move b x y s = Inr b1"
    by (simp add: make_move_board)
  from "2.prems"(1) nw v mv have rest: "legal_play b1 (next_turn (Some s)) ms = Some b'" by simp
  from "2.prems"(2) mv rng have b1: "is_board b1" by (rule is_board_make_move)
  from "2.prems"(2) nw mv rng have "\<not> (completed b1 ''X'' \<and> completed b1 ''O'')"
    by (rule move_keeps_single_winner)
  with "2.IH" nw v mv rest b1 show ?case by simp
qed

lemma empty_not_completed: "\<not> completed empty_board s"
  by (simp add: empty_board_cells completed_cells)

lemmas play_eval =
  is_valid_move_def make_move_def getitem2_def getitem_def setitem_def py_index_def
  bind_result_def is_empty_cell_def next_turn_def truthy_def

section \<open>Board model: validity and draw\<close>

text \<open>
  Claim C6. On every 3 by 3 board and for all integers \<open>x\<close> and \<open>y\<close>, negative and
  out-of-range ones included, \<open>is_valid_move\<close> returns a boolean (it raises nothing), and the
  boolean is true exactly when \<open>0 \<le> x < 3\<close>, \<open>0 \<le> y < 3\<close> and the cell \<open>board[x][y]\<close> is
  empty. Empty is the code's own test: the cell is \<open>None\<close> or the empty string, the two
  encodings of an empty cell.
\<close>

theorem is_valid_move_total:
  assumes "is_board b"
  shows "is_valid_move b x y =
           Inr (0 \<le> x \<and> x < 3 \<and> 0 \<le> y \<and> y < 3 \<and> is_empty_cell (b ! nat x ! nat y))"
  using assms by (rule is_valid_move_board)

theorem is_valid_move_total_witness:
  "is_board empty_board \<and> is_valid_move empty_board 1 2 = Inr True
     \<and> is_valid_move empty_board (- 1) 7 = Inr False"
  using is_valid_move_total [OF is_board_empty_board, of 1 2]
    is_valid_move_total [OF is_board_empty_board, of "- 1" 7]
  by (simp add: is_board_empty_board) (simp add: empty_board_cells is_empty_cell_def)

text \<open>
  Claim C7. On every 3 by 3 board \<open>check_win\<close> returns a value \<open>w\<close> and \<open>check_draw\<close>
  returns a boolean, which is true exactly when none of the nine cells is empty and \<open>w\<close> is
  \<open>None\<close>. So a true \<open>check_draw\<close> means a full board without a winning line.
\<close>

theorem check_draw_iff:
  assumes "is_board b"
  shows "\<exists>w. check_win b = Inr w \<and>
           check_draw b = Inr ((\<forall>row \<in> set b. \<forall>c \<in> set row. \<not> is_empty_cell c) \<and> w = None)"
proof -
  from assms obtain w where w: "check_win b = Inr w" using check_win_total by blast
  have "check_draw b = Inr ((\<forall>row \<in> set b. \<forall>c \<in> set row. \<not> is_empty_cell c) \<and> w = None)"
    by (auto simp add: check_draw_def w bind_result_def list_ex_iff)
  with w show ?thesis by blast
qed

theorem check_draw_iff_witness:
  "is_board drawn_board \<and> check_win drawn_board = Inr None \<and> check_draw drawn_board = Inr True"
proof -
  have b: "is_board drawn_board" by (simp add: is_board_def drawn_board_def)
  have w: "check_win drawn_board = Inr None"
    by (simp add: drawn_board_def check_win_cells scan_lines_Cons3 scan_lines.simps(1) truthy_def)
  from check_draw_iff [OF b] w
  have "check_draw drawn_board =
          Inr (\<forall>row \<in> set drawn_board. \<forall>c \<in> set row. \<not> is_empty_cell c)" by simp
  then have "check_draw drawn_board = Inr True"
    by (simp add: drawn_board_def is_empty_cell_def)
  with b w show ?thesis by simp
qed

section \<open>Board model: one winner at most\<close>

text \<open>
  Claim C9, as stated, fails: six alternating moves from the empty board, each on a cell for
  which \<open>is_valid_move\<close> is true, give a board with a completed row of X and a completed row
  of O. Nothing in \<open>make_move\<close> or \<open>is_valid_move\<close> looks at earlier wins.
\<close>

theorem alternating_play_two_winners:
  "alternating_play empty_board ''X'' [(0, 0), (1, 0), (0, 1), (1, 1), (0, 2), (1, 2)]
     = Some two_rows_board
   \<and> completed two_rows_board ''X'' \<and> completed two_rows_board ''O''"
  by (simp add: empty_board_cells two_rows_board_def play_eval completed_cells)

text \<open>
  Claim C9, amended. When in addition no move is made on a board on which \<open>check_win\<close>
  already returns a symbol (the rule \<open>api_submit_move\<close> enforces through the stored winner),
  every board obtained from the empty board by alternating valid moves starting with X is a
  3 by 3 board on which \<open>check_win\<close> returns a value, and X and O do not both have a
  completed line.
\<close>

theorem legal_play_single_winner:
  assumes "legal_play empty_board ''X'' ms = Some b"
  shows "(\<exists>w. check_win b = Inr w) \<and> \<not> (completed b ''X'' \<and> completed b ''O'')"
proof -
  from legal_play_invariant [OF assms is_board_empty_board]
  have "is_board b \<and> \<not> (completed b ''X'' \<and> completed b ''O'')"
    by (simp add: empty_not_completed)
  then show ?thesis by (simp add: check_win_total)
qed

theorem legal_play_single_winner_witness:
  "legal_play empty_board ''X'' [(0, 0), (1, 0), (0, 1), (1, 1), (0, 2)] = Some x_wins_board
   \<and> (\<exists>w. check_win x_wins_board = Inr w)
   \<and> \<not> (completed x_wins_board ''X'' \<and> completed x_wins_board ''O'')"
proof -
  have p: "legal_play empty_board ''X'' [(0, 0), (1, 0), (0, 1), (1, 1), (0, 2)] = Some x_wins_board"
    by (simp add: empty_board_cells x_wins_board_def play_eval check_win_cells scan_lines_Cons3
        scan_lines.simps(1))
  from legal_play_single_winner [OF p] p show ?thesis by simp
qed

section \<open>Submission protocol: helper lemmas\<close>

lemmas failure_defs =
  not_found_def not_a_participant_def game_finished_def not_your_turn_def invalid_move_def

lemma rejection_http: "is_rejection e \<Longrightarrow> \<exists>c d. e = HTTPException c d"
  unfolding is_rejection_def failure_defs by blast

lemma persist_result:
  "fst (submit_move_persist db gid p) =
     (case players db (pd_player_id p) of None \<Rightarrow> Inl (Uncaught TypeError)
      | Some u \<Rightarrow> Inr \<lparr> mo_id = move_seq db, mo_game_id = gid,
                     mo_player = \<lparr> po_id = pd_player_id p, po_username = u \<rparr>,
                     mo_x = pd_x p, mo_y = pd_y p, mo_symbol = pd_symbol p,
                     mo_timestamp = now db \<rparr>)"
  by (simp add: submit_move_persist_def Let_def add_move_def get_player_def
      update_game_board_def finish_game_def split: option.splits)

lemma persist_not_rejection: "submit_move_persist db gid p = (Inl e, db') \<Longrightarrow> \<not> is_rejection e"
  using persist_result [of db gid p] rejection_http [of e] by (auto split: option.splits)

lemma persist_games:
  "games (snd (submit_move_persist db gid p)) =
     (case games db gid of None \<Rightarrow> games db
      | Some g \<Rightarrow> (games db)(gid \<mapsto> g\<lparr> g_board := ListValue (pd_board p),
           g_next_turn := pd_next_t p, g_winner := pd_winner_str p,
           g_finished_at := (if pd_finished p \<and> truthy (pd_winner_str p)
                             then Some (now db) else g_finished_at g) \<rparr>))"
  by (simp add: submit_move_persist_def Let_def add_move_def get_player_def
      update_game_board_def finish_game_def split: option.splits)

lemma persist_executed:
  "executed (snd (submit_move_persist db gid p)) =
     executed db @ [UpdateGameBoard gid (pd_board p) (pd_next_t p) (pd_winner_str p)]
       @ (if pd_finished p \<and> truthy (pd_winner_str p) then [FinishGame gid (pd_winner_str p)] else [])
       @ [InsertMove gid (pd_player_id p) (pd_x p) (pd_y p) (pd_symbol p)]"
  by (simp add: submit_move_persist_def Let_def add_move_def get_player_def
      update_game_board_def finish_game_def split: option.splits)

lemma persist_moves:
  "moves (snd (submit_move_persist db gid p)) =
     moves db @ [\<lparr> m_id = move_seq db, m_game_id = gid, m_player_id = pd_player_id p,
                   m_x = pd_x p, m_y = pd_y p, m_symbol = pd_symbol p, m_timestamp = now db \<rparr>]"
  by (simp add: submit_move_persist_def Let_def add_move_def get_player_def
      update_game_board_def finish_game_def split: option.splits)

lemma persist_players: "players (snd (submit_move_persist db gid p)) = players db"
  by (simp add: submit_move_persist_def Let_def add_move_def get_player_def
      update_game_board_def finish_game_def split: option.splits)

lemma persist_now: "now (snd (submit_move_persist db gid p)) = now db"
  by (simp add: submit_move_persist_def Let_def add_move_def get_player_def
      update_game_board_def finish_game_def split: option.splits)

lemma scan_lines_result: "scan_lines ls = Inr w \<Longrightarrow> w = None \<or> truthy w"
proof (induction ls rule: scan_lines.induct)
  case 1
  then show ?case by (simp add: scan_lines.simps)
next
  case (2 line rest)
  from "2.prems" show ?case
    by (subst (asm) scan_lines.simps) (auto split: sum.splits if_splits dest: "2.IH")
qed

lemma check_win_result: "check_win b = Inr w \<Longrightarrow> w = None \<or> truthy w"
  by (auto simp add: check_win_def bind_result_def split: sum.splits dest: scan_lines_result)

lemma compute_Inr:
  assumes "submit_move_compute g mv b = Inr p"
  shows "\<exists>b' w d. make_move b (mc_x mv) (mc_y mv) (player_symbol g mv) = Inr b'
           \<and> check_win b' = Inr w \<and> check_draw b' = Inr d
           \<and> p = \<lparr> pd_player_id = mc_player_id mv, pd_x = mc_x mv, pd_y = mc_y mv,
                        pd_symbol = player_symbol g mv, pd_board = b',
                        pd_next_t = (if w \<noteq> None \<or> d then None else Some (next_turn (g_next_turn g))),
                        pd_winner_str = (if w \<noteq> None then w else if d then Some ''Draw'' else None),
                        pd_finished = (w \<noteq> None \<or> d) \<rparr>"
proof -
  let ?m = "make_move b (mc_x mv) (mc_y mv) (player_symbol g mv)"
  from assms obtain b' where mm: "?m = Inr b'"
    by (cases ?m) (simp_all add: submit_move_compute_def)
  from assms mm obtain w where cw: "check_win b' = Inr w"
    by (cases "check_win b'") (simp_all add: submit_move_compute_def)
  from assms mm cw obtain d where cd: "check_draw b' = Inr d"
    by (cases "check_draw b'") (simp_all add: submit_move_compute_def)
  from cw have "w = None \<or> truthy w" by (rule check_win_result)
  then have tw: "truthy w = (w \<noteq> None)" by (cases w) (auto simp add: truthy_def)
  from assms have "p = \<lparr> pd_player_id = mc_player_id mv, pd_x = mc_x mv, pd_y = mc_y mv,
                        pd_symbol = player_symbol g mv, pd_board = b',
                        pd_next_t = (if w \<noteq> None \<or> d then None else Some (next_turn (g_next_turn g))),
                        pd_winner_str = (if w \<noteq> None then w else if d then Some ''Draw'' else None),
                        pd_finished = (w \<noteq> None \<or> d) \<rparr>"
    by (simp add: submit_move_compute_def Let_def mm cw cd tw)
  with mm cw cd show ?thesis by blast
qed

lemma check_Inr:
  assumes "submit_move_check g mv = Inr p"
  shows "is_participant g mv \<and> \<not> truthy (g_winner g) \<and> g_next_turn g = Some (player_symbol g mv)
     \<and> is_valid_move (deserialize_board (g_board g)) (mc_x mv) (mc_y mv) = Inr True
     \<and> submit_move_compute g mv (deserialize_board (g_board g)) = Inr p"
  using assms unfolding submit_move_check_def Let_def
  by (simp split: if_splits sum.splits)

lemma read_Inr:
  "submit_move_read db gid mv = Inr p \<Longrightarrow>
     \<exists>g. get_game db gid = Some g \<and> submit_move_check g mv = Inr p"
  by (simp add: submit_move_read_def split: option.splits)

lemma api_Inr:
  "api_submit_move db gid mv = (Inr out, db') \<Longrightarrow>
     \<exists>p. submit_move_read db gid mv = Inr p \<and> submit_move_persist db gid p = (Inr out, db')"
  by (simp add: api_submit_move_def split: sum.splits)


text \<open>What an accepted call leaves behind, in terms of the row it loaded.\<close>

lemma accepted_call:
  assumes g: "get_game db gid = Some g" and ok: "api_submit_move db gid mv = (Inr out, db')"
  obtains b' w d p where
    "make_move (deserialize_board (g_board g)) (mc_x mv) (mc_y mv) (player_symbol g mv) = Inr b'"
    "check_win b' = Inr w" "check_draw b' = Inr d"
    "g_next_turn g = Some (player_symbol g mv)" "\<not> truthy (g_winner g)" "is_participant g mv"
    "is_valid_move (deserialize_board (g_board g)) (mc_x mv) (mc_y mv) = Inr True"
    "submit_move_persist db gid p = (Inr out, db')"
    "p = \<lparr> pd_player_id = mc_player_id mv, pd_x = mc_x mv, pd_y = mc_y mv,
            pd_symbol = player_symbol g mv, pd_board = b',
            pd_next_t = (if w \<noteq> None \<or> d then None else Some (next_turn (g_next_turn g))),
            pd_winner_str = (if w \<noteq> None then w else if d then Some ''Draw'' else None),
            pd_finished = (w \<noteq> None \<or> d) \<rparr>"
    "w = None \<or> truthy w"
proof -
  from ok obtain p where r: "submit_move_read db gid mv = Inr p"
    and ps: "submit_move_persist db gid p = (Inr out, db')" using api_Inr by blast
  from r g have c: "submit_move_check g mv = Inr p" by (simp add: submit_move_read_def)
  note ch = check_Inr [OF c]
  from ch have cp: "submit_move_compute g mv (deserialize_board (g_board g)) = Inr p" by simp
  from compute_Inr [OF cp] obtain b' w d where
    *: "make_move (deserialize_board (g_board g)) (mc_x mv) (mc_y mv) (player_symbol g mv) = Inr b'"
    "check_win b' = Inr w" "check_draw b' = Inr d"
    "p = \<lparr> pd_player_id = mc_player_id mv, pd_x = mc_x mv, pd_y = mc_y mv,
            pd_symbol = player_symbol g mv, pd_board = b',
            pd_next_t = (if w \<noteq> None \<or> d then None else Some (next_turn (g_next_turn g))),
            pd_winner_str = (if w \<noteq> None then w else if d then Some ''Draw'' else None),
            pd_finished = (w \<noteq> None \<or> d) \<rparr>" by blast
  from *(2) have "w = None \<or> truthy w" by (rule check_win_result)
  with * ch ps that show thesis by blast
qed

lemma accepted_row:
  assumes g: "get_game db gid = Some g" and ok: "api_submit_move db gid mv = (Inr out, db')"
  shows "\<exists>b' w d g'.
      make_move (deserialize_board (g_board g)) (mc_x mv) (mc_y mv) (player_symbol g mv) = Inr b'
    \<and> check_win b' = Inr w \<and> check_draw b' = Inr d
    \<and> g_next_turn g = Some (player_symbol g mv)
    \<and> get_game db' gid = Some g' \<and> g_board g' = ListValue b'
    \<and> g_winner g' = (if w \<noteq> None then w else if d then Some ''Draw'' else None)
    \<and> g_next_turn g' = (if w \<noteq> None \<or> d then None else Some (next_turn (g_next_turn g)))
    \<and> g_finished_at g' = (if w \<noteq> None \<or> d then Some (now db) else g_finished_at g)"
proof -
  from g ok obtain b' w d p where
    mm: "make_move (deserialize_board (g_board g)) (mc_x mv) (mc_y mv) (player_symbol g mv) = Inr b'"
    and cw: "check_win b' = Inr w" and cd: "check_draw b' = Inr d"
    and t: "g_next_turn g = Some (player_symbol g mv)"
    and ps: "submit_move_persist db gid p = (Inr out, db')"
    and p: "p = \<lparr> pd_player_id = mc_player_id mv, pd_x = mc_x mv, pd_y = mc_y mv,
            pd_symbol = player_symbol g mv, pd_board = b',
            pd_next_t = (if w \<noteq> None \<or> d then None else Some (next_turn (g_next_turn g))),
            pd_winner_str = (if w \<noteq> None then w else if d then Some ''Draw'' else None),
            pd_finished = (w \<noteq> None \<or> d) \<rparr>"
    and wt: "w = None \<or> truthy w"
    by (rule accepted_call)
  from ps have db': "db' = snd (submit_move_persist db gid p)" by simp
  from g have gg: "games db gid = Some g" by (simp add: get_game_def)
  have fin: "(pd_finished p \<and> truthy (pd_winner_str p)) = (w \<noteq> None \<or> d)"
    using wt by (auto simp add: p truthy_def)
  have "games db' gid = Some (g\<lparr> g_board := ListValue (pd_board p),
           g_next_turn := pd_next_t p, g_winner := pd_winner_str p,
           g_finished_at := (if w \<noteq> None \<or> d then Some (now db) else g_finished_at g) \<rparr>)"
    unfolding db' persist_games gg fin by simp
  then have "get_game db' gid = Some (g\<lparr> g_board := ListValue b',
           g_next_turn := (if w \<noteq> None \<or> d then None else Some (next_turn (g_next_turn g))),
           g_winner := (if w \<noteq> None then w else if d then Some ''Draw'' else None),
           g_finished_at := (if w \<noteq> None \<or> d then Some (now db) else g_finished_at g) \<rparr>)"
    by (simp add: get_game_def p)
  with mm cw cd t show ?thesis by simp
qed



lemma new_statements_append: "executed db' = executed db @ xs \<Longrightarrow> new_statements db db' = xs"
  by (simp add: new_statements_def)

lemmas api_eval =
  submit_move_read_def submit_move_check_def submit_move_compute_def
  get_game_def get_player_def is_participant_def player_symbol_def deserialize_board_def
  sample_db_def sample_game_def move_by_def Let_def play_eval check_draw_def
  check_win_cells scan_lines_Cons3 scan_lines.simps(1)
  empty_board_cells x_wins_board_def x_to_win_board_def

lemma api_fst:
  "fst (api_submit_move db gid mv) =
     (case submit_move_read db gid mv of Inl e \<Rightarrow> Inl e
      | Inr p \<Rightarrow> fst (submit_move_persist db gid p))"
  by (simp add: api_submit_move_def split: sum.splits)

lemma api_snd:
  "snd (api_submit_move db gid mv) =
     (case submit_move_read db gid mv of Inl e \<Rightarrow> db
      | Inr p \<Rightarrow> snd (submit_move_persist db gid p))"
  by (simp add: api_submit_move_def split: sum.splits)

lemma read_first_move:
  "submit_move_read (sample_db (sample_game empty_board (Some ''X'') None)) 1 (move_by 10 0 0) =
     Inr \<lparr> pd_player_id = 10, pd_x = 0, pd_y = 0, pd_symbol = ''X'',
           pd_board = [[Some ''X'', None, None], [None, None, None], [None, None, None]],
           pd_next_t = Some ''O'', pd_winner_str = None, pd_finished = False \<rparr>"
  by (simp add: api_eval)

lemma read_winning_move:
  "submit_move_read (sample_db (sample_game x_to_win_board (Some ''X'') None)) 1 (move_by 10 0 2) =
     Inr \<lparr> pd_player_id = 10, pd_x = 0, pd_y = 2, pd_symbol = ''X'',
           pd_board = x_wins_board,
           pd_next_t = None, pd_winner_str = Some ''X'', pd_finished = True \<rparr>"
  by (simp add: api_eval)

lemma read_rejections:
  "submit_move_read (sample_db (sample_game empty_board (Some ''X'') None)) 99 (move_by 10 0 0) = Inl not_found"
  "submit_move_read (sample_db (sample_game x_wins_board None (Some ''X''))) 1 (move_by 30 2 2) = Inl not_a_participant"
  "submit_move_read (sample_db (sample_game x_wins_board None (Some ''X''))) 1 (move_by 10 2 2) = Inl game_finished"
  "submit_move_read (sample_db (sample_game empty_board (Some ''X'') None)) 1 (move_by 20 0 0) = Inl not_your_turn"
  "submit_move_read (sample_db (sample_game x_to_win_board (Some ''X'') None)) 1 (move_by 10 0 0) = Inl invalid_move"
  by (simp_all add: api_eval)

lemma failures_distinct: "not_a_participant \<noteq> game_finished"
  by (simp add: failure_defs)

lemma read_player: "submit_move_read db gid mv = Inr p \<Longrightarrow> pd_player_id p = mc_player_id mv"
proof -
  assume "submit_move_read db gid mv = Inr p"
  then obtain g where "submit_move_check g mv = Inr p" using read_Inr by blast
  then have "submit_move_compute g mv (deserialize_board (g_board g)) = Inr p"
    using check_Inr by blast
  from compute_Inr [OF this] show ?thesis by auto
qed

lemma new_game_board:
  "deserialize_board (g_board (fst (create_game db px po))) =
     [[Some '''', Some '''', Some ''''], [Some '''', Some '''', Some ''''],
      [Some '''', Some '''', Some '''']]"
  by (simp add: create_game_def Let_def deserialize_board_def)

lemma persist_move_seq: "move_seq (snd (submit_move_persist db gid p)) = move_seq db + 1"
  by (simp add: submit_move_persist_def Let_def add_move_def get_player_def
      update_game_board_def finish_game_def split: option.splits)

lemma after_first_move:
  "games (snd (api_submit_move (sample_db (sample_game empty_board (Some ''X'') None)) 1 (move_by 10 0 0))) 1
     = Some (sample_game [[Some ''X'', None, None], [None, None, None], [None, None, None]]
               (Some ''O'') None)"
  "players (snd (api_submit_move (sample_db (sample_game empty_board (Some ''X'') None)) 1 (move_by 10 0 0))) 20
     = Some ''bob''"
  "move_seq (snd (api_submit_move (sample_db (sample_game empty_board (Some ''X'') None)) 1 (move_by 10 0 0)))
     = 2"
  "now (snd (api_submit_move (sample_db (sample_game empty_board (Some ''X'') None)) 1 (move_by 10 0 0)))
     = 7"
  by (simp_all add: api_snd read_first_move persist_games persist_players persist_now
        persist_move_seq truthy_def)
     (simp_all add: sample_db_def sample_game_def)



section \<open>Concurrent requests: helper lemmas\<close>

lemma execute_executed: "executed (execute db st) = executed db @ [st]"
  by (cases st)
     (simp_all add: create_game_def update_game_board_def finish_game_def add_move_def Let_def)

lemma execute_players: "players (execute db st) = players db"
  by (cases st)
     (simp_all add: create_game_def update_game_board_def finish_game_def add_move_def Let_def)

lemma execute_moves:
  "length (moves (execute db st)) = length (moves db) + (if is_move_insert st then 1 else 0)"
  by (cases st)
     (simp_all add: create_game_def update_game_board_def finish_game_def add_move_def Let_def
        is_move_insert_def)

lemma foldl_execute_executed: "executed (foldl execute db zs) = executed db @ zs"
  by (induction zs arbitrary: db) (simp_all add: execute_executed)

lemma foldl_execute_moves:
  "length (moves (foldl execute db zs)) = length (moves db) + length (filter is_move_insert zs)"
  by (induction zs arbitrary: db) (simp_all add: execute_moves)

lemma length_filter_shuffles:
  assumes "zs \<in> shuffles xs ys"
  shows "length (filter P zs) = length (filter P xs) + length (filter P ys)"
proof -
  from assms have "filter P zs \<in> filter P ` shuffles xs ys" by (rule imageI)
  then have "filter P zs \<in> shuffles (filter P xs) (filter P ys)" by (simp only: filter_shuffles)
  then show ?thesis by (rule length_shuffles)
qed

text \<open>One step of a handler that is on course: a write of its own, or none.\<close>

lemma handler_step_on_course:
  assumes "on_course (players db) h" and "handler_step gid db h = (h', db')"
  shows "on_course (players db) h' \<and> players db' = players db
     \<and> ((pending_writes gid h = pending_writes gid h' \<and> db' = db)
        \<or> (\<exists>st. pending_writes gid h = st # pending_writes gid h' \<and> db' = execute db st))
     \<and> steps_left h' \<le> steps_left h - 1"
proof (cases h)
  case (AtGetGame mv)
  with assms show ?thesis by simp
next
  case (AtUpdate p)
  with assms show ?thesis by (auto simp add: update_game_board_def)
next
  case (AtFinish p)
  with assms show ?thesis by (auto simp add: finish_game_def)
next
  case (AtAddMove p)
  with assms show ?thesis by (auto simp add: add_move_def Let_def)
next
  case (AtGetPlayer p mov)
  with assms show ?thesis by (auto simp add: get_player_def)
next
  case (Returned r)
  with assms show ?thesis by auto
qed

lemma run_schedule_course:
  assumes "on_course (players db) h1" and "on_course (players db) h2"
    and "run_schedule gid s (h1, h2, db) = (h1', h2', db')"
  shows "on_course (players db) h1' \<and> on_course (players db) h2'
     \<and> (\<exists>d1 d2 zs. pending_writes gid h1 = d1 @ pending_writes gid h1'
           \<and> pending_writes gid h2 = d2 @ pending_writes gid h2'
           \<and> zs \<in> shuffles d1 d2 \<and> db' = foldl execute db zs)
     \<and> steps_left h1' \<le> steps_left h1 - count_list s True
     \<and> steps_left h2' \<le> steps_left h2 - count_list s False"
  using assms
proof (induction s arbitrary: h1 h2 db)
  case Nil
  then show ?case by auto
next
  case (Cons first s)
  show ?case
  proof (cases first)
    case True
    obtain k1 dbk where st: "handler_step gid db h1 = (k1, dbk)" by (cases "handler_step gid db h1")
    from handler_step_on_course [OF Cons.prems(1) st]
    have oc: "on_course (players db) k1" and pl: "players dbk = players db"
      and wr: "(pending_writes gid h1 = pending_writes gid k1 \<and> dbk = db)
        \<or> (\<exists>st. pending_writes gid h1 = st # pending_writes gid k1 \<and> dbk = execute db st)"
      and sl: "steps_left k1 \<le> steps_left h1 - 1" by simp_all
    from Cons.prems(3) True st have run: "run_schedule gid s (k1, h2, dbk) = (h1', h2', db')"
      by simp
    from oc pl have oc1: "on_course (players dbk) k1" by simp
    from Cons.prems(2) pl have oc2: "on_course (players dbk) h2" by simp
    from Cons.IH [OF oc1 oc2 run] pl obtain d1 d2 zs where
      a: "on_course (players db) h1'" "on_course (players db) h2'"
      and d1: "pending_writes gid k1 = d1 @ pending_writes gid h1'"
      and d2: "pending_writes gid h2 = d2 @ pending_writes gid h2'"
      and zs: "zs \<in> shuffles d1 d2" and db': "db' = foldl execute dbk zs"
      and s1: "steps_left h1' \<le> steps_left k1 - count_list s True"
      and s2: "steps_left h2' \<le> steps_left h2 - count_list s False"
      by auto
    from wr have "\<exists>e1 ws. pending_writes gid h1 = e1 @ pending_writes gid h1'
           \<and> ws \<in> shuffles e1 d2 \<and> db' = foldl execute db ws"
    proof
      assume "pending_writes gid h1 = pending_writes gid k1 \<and> dbk = db"
      with d1 zs db' show ?thesis by auto
    next
      assume "\<exists>st. pending_writes gid h1 = st # pending_writes gid k1 \<and> dbk = execute db st"
      then obtain st where w: "pending_writes gid h1 = st # pending_writes gid k1"
        and e: "dbk = execute db st" by blast
      from w d1 have "pending_writes gid h1 = (st # d1) @ pending_writes gid h1'" by simp
      moreover from zs have "st # zs \<in> shuffles (st # d1) d2" by (rule Cons_in_shuffles_leftI)
      moreover from db' e have "db' = foldl execute db (st # zs)" by simp
      ultimately show ?thesis by blast
    qed
    with d2 have w: "\<exists>d1 d2 zs. pending_writes gid h1 = d1 @ pending_writes gid h1'
           \<and> pending_writes gid h2 = d2 @ pending_writes gid h2'
           \<and> zs \<in> shuffles d1 d2 \<and> db' = foldl execute db zs" by blast
    from s1 sl True have t1: "steps_left h1' \<le> steps_left h1 - count_list (first # s) True"
      by simp
    from s2 True have t2: "steps_left h2' \<le> steps_left h2 - count_list (first # s) False"
      by simp
    from a w t1 t2 show ?thesis by blast
  next
    case False
    obtain k2 dbk where st: "handler_step gid db h2 = (k2, dbk)" by (cases "handler_step gid db h2")
    from handler_step_on_course [OF Cons.prems(2) st]
    have oc: "on_course (players db) k2" and pl: "players dbk = players db"
      and wr: "(pending_writes gid h2 = pending_writes gid k2 \<and> dbk = db)
        \<or> (\<exists>st. pending_writes gid h2 = st # pending_writes gid k2 \<and> dbk = execute db st)"
      and sl: "steps_left k2 \<le> steps_left h2 - 1" by simp_all
    from Cons.prems(3) False st have run: "run_schedule gid s (h1, k2, dbk) = (h1', h2', db')"
      by simp
    from oc pl have oc2: "on_course (players dbk) k2" by simp
    from Cons.prems(1) pl have oc1: "on_course (players dbk) h1" by simp
    from Cons.IH [OF oc1 oc2 run] pl obtain d1 d2 zs where
      a: "on_course (players db) h1'" "on_course (players db) h2'"
      and d1: "pending_writes gid h1 = d1 @ pending_writes gid h1'"
      and d2: "pending_writes gid k2 = d2 @ pending_writes gid h2'"
      and zs: "zs \<in> shuffles d1 d2" and db': "db' = foldl execute dbk zs"
      and s1: "steps_left h1' \<le> steps_left h1 - count_list s True"
      and s2: "steps_left h2' \<le> steps_left k2 - count_list s False"
      by auto
    from wr have "\<exists>e2 ws. pending_writes gid h2 = e2 @ pending_writes gid h2'
           \<and> ws \<in> shuffles d1 e2 \<and> db' = foldl execute db ws"
    proof
      assume "pending_writes gid h2 = pending_writes gid k2 \<and> dbk = db"
      with d2 zs db' show ?thesis by auto
    next
      assume "\<exists>st. pending_writes gid h2 = st # pending_writes gid k2 \<and> dbk = execute db st"
      then obtain st where w: "pending_writes gid h2 = st # pending_writes gid k2"
        and e: "dbk = execute db st" by blast
      from w d2 have "pending_writes gid h2 = (st # d2) @ pending_writes gid h2'" by simp
      moreover from zs have "st # zs \<in> shuffles d1 (st # d2)" by (rule Cons_in_shuffles_rightI)
      moreover from db' e have "db' = foldl execute db (st # zs)" by simp
      ultimately show ?thesis by blast
    qed
    with d1 have w: "\<exists>d1 d2 zs. pending_writes gid h1 = d1 @ pending_writes gid h1'
           \<and> pending_writes gid h2 = d2 @ pending_writes gid h2'
           \<and> zs \<in> shuffles d1 d2 \<and> db' = foldl execute db zs" by blast
    from s2 sl False have t2: "steps_left h2' \<le> steps_left h2 - count_list (first # s) False"
      by simp
    from s1 False have t1: "steps_left h1' \<le> steps_left h1 - count_list (first # s) True"
      by simp
    from a w t1 t2 show ?thesis by blast
  qed
qed

lemma steps_left_0: "steps_left h = 0 \<Longrightarrow> \<exists>r. h = Returned r"
  by (cases h) simp_all

lemma on_course_Returned: "on_course ps (Returned r) \<Longrightarrow> \<exists>out. r = Inr out"
  by (cases r) simp_all

lemma pending_writes_counts:
  "length (filter is_move_insert (pending_writes gid (AtUpdate p))) = 1"
  "1 \<le> length (filter is_game_update (pending_writes gid (AtUpdate p)))"
  by (simp_all add: is_move_insert_def is_game_update_def)

lemma both_read_first:
  assumes "submit_move_read db gid mv1 = Inr p1" and "submit_move_read db gid mv2 = Inr p2"
    and "a \<noteq> b"
  shows "run_schedule gid (a # b # s) (AtGetGame mv1, AtGetGame mv2, db) =
           run_schedule gid s (AtUpdate p1, AtUpdate p2, db)"
  using assms by (cases a; cases b) simp_all

text \<open>A request that runs alone, five steps in a row, is \<open>api_submit_move\<close>.\<close>

lemma run_alone:
  "run_schedule gid [True, True, True, True, True] (AtGetGame mv, h2, db) =
     (Returned (fst (api_submit_move db gid mv)), h2, snd (api_submit_move db gid mv))"
proof (cases "submit_move_read db gid mv")
  case (Inl e)
  then show ?thesis by (simp add: api_submit_move_def)
next
  case (Inr p)
  then show ?thesis
    by (cases "pd_finished p"; cases "truthy (pd_winner_str p)";
        cases "players db (pd_player_id p)")
       (simp_all add: api_submit_move_def submit_move_persist_def Let_def get_player_def
          add_move_def update_game_board_def finish_game_def)
qed

lemma read_corner_move:
  "submit_move_read (sample_db (sample_game x_to_win_board (Some ''X'') None)) 1 (move_by 10 2 2) =
     Inr \<lparr> pd_player_id = 10, pd_x = 2, pd_y = 2, pd_symbol = ''X'',
           pd_board = [[Some ''X'', Some ''X'', None], [Some ''O'', Some ''O'', None],
                       [None, None, Some ''X'']],
           pd_next_t = Some ''O'', pd_winner_str = None, pd_finished = False \<rparr>"
  by (simp add: api_eval)

lemma race_start:
  "run_schedule 1 (True # False # s)
     (AtGetGame (move_by 10 0 2), AtGetGame (move_by 10 2 2),
      sample_db (sample_game x_to_win_board (Some ''X'') None)) =
   run_schedule 1 s
     (AtUpdate \<lparr> pd_player_id = 10, pd_x = 0, pd_y = 2, pd_symbol = ''X'',
           pd_board = x_wins_board,
           pd_next_t = None, pd_winner_str = Some ''X'', pd_finished = True \<rparr>,
      AtUpdate \<lparr> pd_player_id = 10, pd_x = 2, pd_y = 2, pd_symbol = ''X'',
           pd_board = [[Some ''X'', Some ''X'', None], [Some ''O'', Some ''O'', None],
                       [None, None, Some ''X'']],
           pd_next_t = Some ''O'', pd_winner_str = None, pd_finished = False \<rparr>,
      sample_db (sample_game x_to_win_board (Some ''X'') None))"
  by (rule both_read_first [OF read_winning_move read_corner_move]) simp

lemmas race_eval =
  update_game_board_def finish_game_def add_move_def get_player_def sample_db_def
  sample_game_def truthy_def Let_def

section \<open>Order of the checks\<close>

text \<open>
  Claim C1, as stated, fails: for a game that X has won and a player who is not one of its
  participants, the result is the rejection "not part of this game", not "game finished".
\<close>

theorem finished_game_outsider_not_participant:
  "get_game (sample_db (sample_game x_wins_board None (Some ''X''))) 1
      = Some (sample_game x_wins_board None (Some ''X''))
   \<and> truthy (g_winner (sample_game x_wins_board None (Some ''X'')))
   \<and> \<not> is_participant (sample_game x_wins_board None (Some ''X'')) (move_by 30 2 2)
   \<and> fst (api_submit_move (sample_db (sample_game x_wins_board None (Some ''X''))) 1 (move_by 30 2 2))
      = Inl not_a_participant
   \<and> fst (api_submit_move (sample_db (sample_game x_wins_board None (Some ''X''))) 1 (move_by 30 2 2))
      \<noteq> Inl game_finished"
  by (simp add: api_fst read_rejections failures_distinct)
     (simp add: get_game_def sample_db_def sample_game_def is_participant_def move_by_def truthy_def)

text \<open>
  Claim C1, amended. \<open>api_submit_move\<close> checks in this order, the first failure being the
  result: the game exists, else 404 game not found; the player is one of the two participants,
  else 403 not a participant; the game has no winner yet, else 400 game finished; the
  participant's symbol is the stored next turn, else 403 not your turn; the move is valid on
  the board, else 400 invalid move. The participant test comes before the finished test.
\<close>

theorem submit_move_check_order:
  "(get_game db gid = None \<longrightarrow> fst (api_submit_move db gid mv) = Inl not_found)
   \<and> (\<forall>g. get_game db gid = Some g \<longrightarrow>
        (\<not> is_participant g mv \<longrightarrow> fst (api_submit_move db gid mv) = Inl not_a_participant)
      \<and> (is_participant g mv \<and> truthy (g_winner g) \<longrightarrow>
           fst (api_submit_move db gid mv) = Inl game_finished)
      \<and> (is_participant g mv \<and> \<not> truthy (g_winner g)
           \<and> g_next_turn g \<noteq> Some (player_symbol g mv) \<longrightarrow>
           fst (api_submit_move db gid mv) = Inl not_your_turn)
      \<and> (is_participant g mv \<and> \<not> truthy (g_winner g)
           \<and> g_next_turn g = Some (player_symbol g mv)
           \<and> is_valid_move (deserialize_board (g_board g)) (mc_x mv) (mc_y mv) = Inr False \<longrightarrow>
           fst (api_submit_move db gid mv) = Inl invalid_move))"
  by (simp add: api_submit_move_def submit_move_read_def submit_move_check_def Let_def)

theorem submit_move_check_order_witness:
  "fst (api_submit_move (sample_db (sample_game empty_board (Some ''X'') None)) 99 (move_by 10 0 0))
      = Inl not_found
   \<and> fst (api_submit_move (sample_db (sample_game x_wins_board None (Some ''X''))) 1 (move_by 30 2 2))
      = Inl not_a_participant
   \<and> fst (api_submit_move (sample_db (sample_game x_wins_board None (Some ''X''))) 1 (move_by 10 2 2))
      = Inl game_finished
   \<and> fst (api_submit_move (sample_db (sample_game empty_board (Some ''X'') None)) 1 (move_by 20 0 0))
      = Inl not_your_turn
   \<and> fst (api_submit_move (sample_db (sample_game x_to_win_board (Some ''X'') None)) 1 (move_by 10 0 0))
      = Inl invalid_move"
proof -
  have 1: "fst (api_submit_move (sample_db (sample_game empty_board (Some ''X'') None)) 99 (move_by 10 0 0))
      = Inl not_found"
    using submit_move_check_order
      [of "sample_db (sample_game empty_board (Some ''X'') None)" 99 "move_by 10 0 0"]
    by (simp add: get_game_def sample_db_def)
  have 2: "fst (api_submit_move (sample_db (sample_game x_wins_board None (Some ''X''))) 1 (move_by 30 2 2))
      = Inl not_a_participant"
    using submit_move_check_order
      [of "sample_db (sample_game x_wins_board None (Some ''X''))" 1 "move_by 30 2 2"]
    by (simp add: get_game_def sample_db_def is_participant_def sample_game_def move_by_def)
  have 3: "fst (api_submit_move (sample_db (sample_game x_wins_board None (Some ''X''))) 1 (move_by 10 2 2))
      = Inl game_finished"
    using submit_move_check_order
      [of "sample_db (sample_game x_wins_board None (Some ''X''))" 1 "move_by 10 2 2"]
    by (simp add: get_game_def sample_db_def is_participant_def sample_game_def move_by_def
        truthy_def)
  have 4: "fst (api_submit_move (sample_db (sample_game empty_board (Some ''X'') None)) 1 (move_by 20 0 0))
      = Inl not_your_turn"
    using submit_move_check_order
      [of "sample_db (sample_game empty_board (Some ''X'') None)" 1 "move_by 20 0 0"]
    by (simp add: get_game_def sample_db_def is_participant_def sample_game_def move_by_def
        truthy_def player_symbol_def)
  have 5: "fst (api_submit_move (sample_db (sample_game x_to_win_board (Some ''X'') None)) 1 (move_by 10 0 0))
      = Inl invalid_move"
    using submit_move_check_order
      [of "sample_db (sample_game x_to_win_board (Some ''X'') None)" 1 "move_by 10 0 0"]
    by (simp add: get_game_def sample_db_def is_participant_def sample_game_def move_by_def
        truthy_def player_symbol_def deserialize_board_def x_to_win_board_def play_eval)
  from 1 2 3 4 5 show ?thesis by blast
qed

section \<open>Two submissions racing for one turn\<close>

text \<open>
  Claim C2, as stated, fails: on a board where X can win at (0,2), two submissions of player X
  for the same turn, at (0,2) and at (2,2), both pass their checks before either writes and
  then take turns at their awaits. Both return their move, neither is rejected, and no write
  is refused: the row ends with the board of the second request, on which X has no line, and
  with the winner X written by the first.
\<close>

theorem racing_submissions_no_conflict:
  "fst (run_schedule 1 [True, False, True, False, True, False, True, False, True]
          (AtGetGame (move_by 10 0 2), AtGetGame (move_by 10 2 2),
           sample_db (sample_game x_to_win_board (Some ''X'') None)))
     = Returned (Inr \<lparr> mo_id = 2, mo_game_id = 1,
                  mo_player = \<lparr> po_id = 10, po_username = ''ann'' \<rparr>,
                  mo_x = 0, mo_y = 2, mo_symbol = ''X'', mo_timestamp = 7 \<rparr>)
   \<and> fst (snd (run_schedule 1 [True, False, True, False, True, False, True, False, True]
          (AtGetGame (move_by 10 0 2), AtGetGame (move_by 10 2 2),
           sample_db (sample_game x_to_win_board (Some ''X'') None))))
     = Returned (Inr \<lparr> mo_id = 1, mo_game_id = 1,
                  mo_player = \<lparr> po_id = 10, po_username = ''ann'' \<rparr>,
                  mo_x = 2, mo_y = 2, mo_symbol = ''X'', mo_timestamp = 7 \<rparr>)
   \<and> get_game (snd (snd (run_schedule 1 [True, False, True, False, True, False, True, False, True]
          (AtGetGame (move_by 10 0 2), AtGetGame (move_by 10 2 2),
           sample_db (sample_game x_to_win_board (Some ''X'') None))))) 1
     = Some \<lparr> g_id = 1, g_player_x_id = 10, g_player_o_id = Some 20, g_next_turn = Some ''O'',
              g_board = ListValue [[Some ''X'', Some ''X'', None], [Some ''O'', Some ''O'', None],
                                   [None, None, Some ''X'']],
              g_winner = Some ''X'', g_created_at = 5, g_finished_at = Some 7 \<rparr>
   \<and> new_statements (sample_db (sample_game x_to_win_board (Some ''X'') None))
        (snd (snd (run_schedule 1 [True, False, True, False, True, False, True, False, True]
          (AtGetGame (move_by 10 0 2), AtGetGame (move_by 10 2 2),
           sample_db (sample_game x_to_win_board (Some ''X'') None)))))
     = [UpdateGameBoard 1 x_wins_board None (Some ''X''),
        UpdateGameBoard 1 [[Some ''X'', Some ''X'', None], [Some ''O'', Some ''O'', None],
                           [None, None, Some ''X'']] (Some ''O'') None,
        FinishGame 1 (Some ''X''),
        InsertMove 1 10 2 2 ''X'', InsertMove 1 10 0 2 ''X'']"
  unfolding race_start
  by (simp add: race_eval get_game_def new_statements_def)

text \<open>
  Claim C2, amended. The writes of \<open>api_submit_move\<close> are keyed by the game id alone: they
  do not depend on the turn or winner the row holds when they run, and none reports a
  conflict. When two submissions for the same game have both passed their checks on the same
  row before either writes, then under every order of their awaits that lets both run to the
  end both succeed: the statements executed are the writes of the two requests, each request's
  in its own order, interleaved as scheduled; the database is what these statements leave,
  one after the other; both move records are inserted and each request runs its game update.
\<close>

theorem racing_submissions_every_schedule:
  assumes r1: "submit_move_read db gid mv1 = Inr p1" and r2: "submit_move_read db gid mv2 = Inr p2"
    and pl1: "get_player db (mc_player_id mv1) \<noteq> None"
    and pl2: "get_player db (mc_player_id mv2) \<noteq> None"
    and ab: "a \<noteq> b"
    and n1: "4 \<le> count_list s True" and n2: "4 \<le> count_list s False"
  shows "\<exists>o1 o2 db' zs.
      run_schedule gid (a # b # s) (AtGetGame mv1, AtGetGame mv2, db)
        = (Returned (Inr o1), Returned (Inr o2), db')
    \<and> zs \<in> shuffles (pending_writes gid (AtUpdate p1)) (pending_writes gid (AtUpdate p2))
    \<and> db' = foldl execute db zs
    \<and> new_statements db db' = zs
    \<and> length (filter is_move_insert zs) = 2
    \<and> length (moves db') = length (moves db) + 2
    \<and> 2 \<le> length (filter is_game_update zs)"
proof -
  obtain h1' h2' db' where run: "run_schedule gid s (AtUpdate p1, AtUpdate p2, db) = (h1', h2', db')"
    by (cases "run_schedule gid s (AtUpdate p1, AtUpdate p2, db)")
  from pl1 read_player [OF r1] have c1: "on_course (players db) (AtUpdate p1)"
    by (auto simp add: get_player_def)
  from pl2 read_player [OF r2] have c2: "on_course (players db) (AtUpdate p2)"
    by (auto simp add: get_player_def)
  from run_schedule_course [OF c1 c2 run] obtain d1 d2 zs where
    oc: "on_course (players db) h1'" "on_course (players db) h2'"
    and d1: "pending_writes gid (AtUpdate p1) = d1 @ pending_writes gid h1'"
    and d2: "pending_writes gid (AtUpdate p2) = d2 @ pending_writes gid h2'"
    and zs: "zs \<in> shuffles d1 d2" and db': "db' = foldl execute db zs"
    and s1: "steps_left h1' \<le> steps_left (AtUpdate p1) - count_list s True"
    and s2: "steps_left h2' \<le> steps_left (AtUpdate p2) - count_list s False"
    by blast
  from s1 n1 have "steps_left h1' = 0" by simp
  then obtain q1 where h1: "h1' = Returned q1" using steps_left_0 by blast
  from s2 n2 have "steps_left h2' = 0" by simp
  then obtain q2 where h2: "h2' = Returned q2" using steps_left_0 by blast
  from oc(1) h1 obtain o1 where q1: "q1 = Inr o1" using on_course_Returned by blast
  from oc(2) h2 obtain o2 where q2: "q2 = Inr o2" using on_course_Returned by blast
  from d1 h1 have e1: "d1 = pending_writes gid (AtUpdate p1)" by simp
  from d2 h2 have e2: "d2 = pending_writes gid (AtUpdate p2)" by simp
  from zs e1 e2
  have sh: "zs \<in> shuffles (pending_writes gid (AtUpdate p1)) (pending_writes gid (AtUpdate p2))"
    by simp
  have res: "run_schedule gid (a # b # s) (AtGetGame mv1, AtGetGame mv2, db)
        = (Returned (Inr o1), Returned (Inr o2), db')"
    unfolding both_read_first [OF r1 r2 ab] run h1 h2 q1 q2 ..
  have ns: "new_statements db db' = zs"
    by (simp add: new_statements_def db' foldl_execute_executed)
  have mi: "length (filter is_move_insert zs) = 2"
    unfolding length_filter_shuffles [OF sh] pending_writes_counts(1) by simp
  have mv: "length (moves db') = length (moves db) + 2"
    unfolding db' foldl_execute_moves mi ..
  have gu: "2 \<le> length (filter is_game_update zs)"
    unfolding length_filter_shuffles [OF sh]
    using pending_writes_counts(2) [of gid p1] pending_writes_counts(2) [of gid p2] by linarith
  show ?thesis
    by (intro exI conjI) (fact res sh db' ns mi mv gu)+
qed

theorem racing_submissions_every_schedule_witness:
  "submit_move_read (sample_db (sample_game x_to_win_board (Some ''X'') None)) 1 (move_by 10 0 2) =
     Inr \<lparr> pd_player_id = 10, pd_x = 0, pd_y = 2, pd_symbol = ''X'',
           pd_board = x_wins_board,
           pd_next_t = None, pd_winner_str = Some ''X'', pd_finished = True \<rparr>
   \<and> get_player (sample_db (sample_game x_to_win_board (Some ''X'') None)) 10 \<noteq> None
   \<and> True \<noteq> False
   \<and> 4 \<le> count_list [True, False, True, False, True, False, True, False] True
   \<and> 4 \<le> count_list [True, False, True, False, True, False, True, False] False
   \<and> (\<exists>o1 o2 db'.
         run_schedule 1 [True, False, True, False, True, False, True, False, True, False]
           (AtGetGame (move_by 10 0 2), AtGetGame (move_by 10 2 2),
            sample_db (sample_game x_to_win_board (Some ''X'') None))
         = (Returned (Inr o1), Returned (Inr o2), db')
         \<and> length (moves db') = 2)"
proof -
  let ?D = "sample_db (sample_game x_to_win_board (Some ''X'') None)"
  have pl: "get_player ?D (mc_player_id (move_by 10 0 2)) \<noteq> None"
    "get_player ?D (mc_player_id (move_by 10 2 2)) \<noteq> None"
    by (simp_all add: get_player_def sample_db_def move_by_def)
  have ab: "True \<noteq> False" by simp
  have n: "4 \<le> count_list [True, False, True, False, True, False, True, False] True"
    "4 \<le> count_list [True, False, True, False, True, False, True, False] False"
    by simp_all
  have m: "length (moves ?D) = 0" by (simp add: sample_db_def)
  from racing_submissions_every_schedule [OF read_winning_move read_corner_move pl ab n] m
  have "\<exists>o1 o2 db'.
         run_schedule 1 [True, False, True, False, True, False, True, False, True, False]
           (AtGetGame (move_by 10 0 2), AtGetGame (move_by 10 2 2), ?D)
         = (Returned (Inr o1), Returned (Inr o2), db')
         \<and> length (moves db') = 2" by auto
  moreover from pl have "get_player ?D 10 \<noteq> None" by (simp add: move_by_def)
  ultimately show ?thesis using read_winning_move n by blast
qed

section \<open>The writes of an accepted move\<close>

text \<open>
  Claim C3, as stated, fails: the move that completes X's top row is followed by two
  \<open>UPDATE\<close> statements on the game row, not one.
\<close>

theorem winning_move_two_updates:
  "fst (api_submit_move (sample_db (sample_game x_to_win_board (Some ''X'') None)) 1 (move_by 10 0 2))
     = Inr \<lparr> mo_id = 1, mo_game_id = 1, mo_player = \<lparr> po_id = 10, po_username = ''ann'' \<rparr>,
             mo_x = 0, mo_y = 2, mo_symbol = ''X'', mo_timestamp = 7 \<rparr>
   \<and> new_statements (sample_db (sample_game x_to_win_board (Some ''X'') None))
        (snd (api_submit_move (sample_db (sample_game x_to_win_board (Some ''X'') None)) 1
                (move_by 10 0 2)))
     = [UpdateGameBoard 1 x_wins_board None (Some ''X''), FinishGame 1 (Some ''X''),
        InsertMove 1 10 0 2 ''X'']
   \<and> length (filter is_game_update
        (new_statements (sample_db (sample_game x_to_win_board (Some ''X'') None))
          (snd (api_submit_move (sample_db (sample_game x_to_win_board (Some ''X'') None)) 1
                (move_by 10 0 2))))) = 2"
  by (simp add: api_fst api_snd read_winning_move persist_result persist_executed
        new_statements_def is_game_update_def truthy_def)
     (simp add: sample_db_def)

text \<open>
  Claim C3, amended. A successful call of \<open>api_submit_move\<close> executes exactly one move
  insertion; it executes exactly one game update (\<open>update_game_board\<close>) when the move leaves
  the game in progress, and exactly two (\<open>update_game_board\<close>, then \<open>finish_game\<close>, which
  writes the winner again and stamps \<open>finished_at\<close>) when the move concludes the game by a
  win or a draw.
\<close>

theorem accepted_move_statements:
  assumes ok: "api_submit_move db gid mv = (Inr out, db')"
  shows "\<exists>g'. get_game db' gid = Some g'
    \<and> new_statements db db' =
         [UpdateGameBoard gid (deserialize_board (g_board g')) (g_next_turn g') (g_winner g')]
         @ (if g_winner g' = None then [] else [FinishGame gid (g_winner g')])
         @ [InsertMove gid (mc_player_id mv) (mc_x mv) (mc_y mv) (mo_symbol out)]
    \<and> length (filter is_game_update (new_statements db db')) = (if g_winner g' = None then 1 else 2)
    \<and> length (filter is_move_insert (new_statements db db')) = 1
    \<and> length (moves db') = length (moves db) + 1
    \<and> (g_winner g' \<noteq> None \<longrightarrow> g_next_turn g' = None \<and> g_finished_at g' = Some (now db))"
proof -
  from ok obtain p0 where "submit_move_read db gid mv = Inr p0" using api_Inr by blast
  then obtain g where g: "get_game db gid = Some g" using read_Inr by blast
  from g ok obtain b' w d p where
    ps: "submit_move_persist db gid p = (Inr out, db')"
    and p: "p = \<lparr> pd_player_id = mc_player_id mv, pd_x = mc_x mv, pd_y = mc_y mv,
            pd_symbol = player_symbol g mv, pd_board = b',
            pd_next_t = (if w \<noteq> None \<or> d then None else Some (next_turn (g_next_turn g))),
            pd_winner_str = (if w \<noteq> None then w else if d then Some ''Draw'' else None),
            pd_finished = (w \<noteq> None \<or> d) \<rparr>"
    and wt: "w = None \<or> truthy w"
    by (rule accepted_call)
  from ps have db': "db' = snd (submit_move_persist db gid p)" by simp
  from ps have "fst (submit_move_persist db gid p) = Inr out" by simp
  then have sym: "mo_symbol out = player_symbol g mv"
    unfolding persist_result by (auto simp add: p split: option.splits)
  from accepted_row [OF g ok] obtain b'' w' d' g' where
    g': "get_game db' gid = Some g'" by blast
  from g have gg: "games db gid = Some g" by (simp add: get_game_def)
  have fin: "(pd_finished p \<and> truthy (pd_winner_str p)) = (w \<noteq> None \<or> d)"
    using wt by (auto simp add: p truthy_def)
  from g' have "games db' gid = Some g'" by (simp add: get_game_def)
  then have g'eq: "g' = g\<lparr> g_board := ListValue b',
           g_next_turn := (if w \<noteq> None \<or> d then None else Some (next_turn (g_next_turn g))),
           g_winner := (if w \<noteq> None then w else if d then Some ''Draw'' else None),
           g_finished_at := (if w \<noteq> None \<or> d then Some (now db) else g_finished_at g) \<rparr>"
    unfolding db' persist_games gg fin by (simp add: p)
  have wn: "(g_winner g' = None) = (\<not> (w \<noteq> None \<or> d))" by (auto simp add: g'eq)
  have ex: "executed db' = executed db @
         ([UpdateGameBoard gid (deserialize_board (g_board g')) (g_next_turn g') (g_winner g')]
         @ (if g_winner g' = None then [] else [FinishGame gid (g_winner g')])
         @ [InsertMove gid (mc_player_id mv) (mc_x mv) (mc_y mv) (mo_symbol out)])"
    unfolding db' persist_executed fin wn sym
    by (simp add: p g'eq deserialize_board_def)
  note ns = new_statements_append [OF ex]
  have gu: "length (filter is_game_update (new_statements db db')) = (if g_winner g' = None then 1 else 2)"
    unfolding ns by (simp add: is_game_update_def)
  have mi: "length (filter is_move_insert (new_statements db db')) = 1"
    unfolding ns by (simp add: is_move_insert_def)
  have mv: "length (moves db') = length (moves db) + 1"
    unfolding db' persist_moves by simp
  have fa: "g_winner g' \<noteq> None \<longrightarrow> g_next_turn g' = None \<and> g_finished_at g' = Some (now db)"
    by (auto simp add: g'eq)
  from g' ns gu mi mv fa show ?thesis by blast
qed

theorem accepted_move_statements_witness:
  "fst (api_submit_move (sample_db (sample_game empty_board (Some ''X'') None)) 1 (move_by 10 0 0))
     = Inr \<lparr> mo_id = 1, mo_game_id = 1, mo_player = \<lparr> po_id = 10, po_username = ''ann'' \<rparr>,
             mo_x = 0, mo_y = 0, mo_symbol = ''X'', mo_timestamp = 7 \<rparr>
   \<and> length (filter is_move_insert
        (new_statements (sample_db (sample_game empty_board (Some ''X'') None))
          (snd (api_submit_move (sample_db (sample_game empty_board (Some ''X'') None)) 1
                (move_by 10 0 0))))) = 1
   \<and> length (filter is_game_update
        (new_statements (sample_db (sample_game empty_board (Some ''X'') None))
          (snd (api_submit_move (sample_db (sample_game empty_board (Some ''X'') None)) 1
                (move_by 10 0 0))))) = 1"
proof -
  let ?D = "sample_db (sample_game empty_board (Some ''X'') None)"
  let ?r = "api_submit_move ?D 1 (move_by 10 0 0)"
  let ?out = "\<lparr> mo_id = 1, mo_game_id = 1, mo_player = \<lparr> po_id = 10, po_username = ''ann'' \<rparr>,
             mo_x = 0, mo_y = 0, mo_symbol = ''X'', mo_timestamp = 7 \<rparr>"
  have f: "fst ?r = Inr ?out"
    by (simp add: api_fst read_first_move persist_result) (simp add: sample_db_def)
  then have r: "?r = (Inr ?out, snd ?r)" by (metis prod.collapse)
  from accepted_move_statements [OF r] obtain g' where
    g': "get_game (snd ?r) 1 = Some g'"
    and u: "length (filter is_game_update (new_statements ?D (snd ?r))) = (if g_winner g' = None then 1 else 2)"
    and i: "length (filter is_move_insert (new_statements ?D (snd ?r))) = 1"
    by blast
  from g' have "g_winner g' = None"
    by (simp add: get_game_def after_first_move) (auto simp add: sample_game_def)
  with u i f show ?thesis by simp
qed

section \<open>Rejected submissions\<close>

text \<open>
  Claim C4. A call of \<open>api_submit_move\<close> that ends with one of the five rejections (game not
  found, game finished, not a participant, not your turn, invalid move) returns the database
  it was given: no game update, no move insertion, and the board, the turn, the winner and
  the move history are as they were before the call.
\<close>

theorem rejected_no_effect:
  assumes "api_submit_move db gid mv = (Inl e, db')" and "is_rejection e"
  shows "db' = db"
proof (cases "submit_move_read db gid mv")
  case (Inl e')
  with assms show ?thesis by (simp add: api_submit_move_def)
next
  case (Inr p)
  with assms have "submit_move_persist db gid p = (Inl e, db')"
    by (simp add: api_submit_move_def)
  with persist_not_rejection assms(2) show ?thesis by blast
qed

theorem rejected_no_effect_witness:
  "api_submit_move (sample_db (sample_game empty_board (Some ''X'') None)) 1 (move_by 20 0 0)
     = (Inl not_your_turn, sample_db (sample_game empty_board (Some ''X'') None))
   \<and> is_rejection not_your_turn"
proof -
  let ?D = "sample_db (sample_game empty_board (Some ''X'') None)"
  let ?r = "api_submit_move ?D 1 (move_by 20 0 0)"
  have f: "fst ?r = Inl not_your_turn" by (simp add: api_fst read_rejections)
  then have r: "?r = (Inl not_your_turn, snd ?r)" by (metis prod.collapse)
  have rej: "is_rejection not_your_turn" by (simp add: is_rejection_def)
  from rejected_no_effect [OF r rej] r rej show ?thesis by simp
qed

section \<open>A new game\<close>

lemma new_game_rejected_by_GameOut:
  "GameOut i px po (deserialize_board (g_board (fst (create_game db x y)))) t w c f
     = Inl ValidationError"
  by (simp add: GameOut_def new_game_board symbol_or_none_def)

lemma api_create_game_raises: "isl (fst (api_create_game db req))"
  by (simp add: api_create_game_def split_beta Let_def new_game_rejected_by_GameOut
      split: option.splits)

text \<open>
  Claim C5. The claim is what the code declares: \<open>core.empty_board\<close> has \<open>None\<close> in every
  cell and \<open>GameOut\<close> admits only \<open>None\<close>, X and O as cells. The code misses it:
  \<open>create_game\<close> stores the empty string in all nine cells and \<open>_deserialize_board\<close> returns
  them as they are, so the board of a new game, as loaded, is not the all-\<open>None\<close> board, and
  \<open>GameOut\<close>, which accepts the all-\<open>None\<close> board, refuses it: \<open>api_create_game\<close> ends
  with a \<open>ValidationError\<close>, for player 10 on the sample database and, one way or another
  raising, on every database and request.
\<close>

theorem new_game_board_breaks_game_out:
  "deserialize_board (g_board (fst (create_game
      (sample_db (sample_game empty_board (Some ''X'') None)) 10 None)))
     = [[Some '''', Some '''', Some ''''], [Some '''', Some '''', Some ''''],
        [Some '''', Some '''', Some '''']]
   \<and> deserialize_board (g_board (fst (create_game
      (sample_db (sample_game empty_board (Some ''X'') None)) 10 None))) \<noteq> empty_board
   \<and> fst (api_create_game (sample_db (sample_game empty_board (Some ''X'') None))
          \<lparr> gc_player_x_id = 10, gc_player_o_id = None \<rparr>)
     = Inl (Uncaught ValidationError)
   \<and> GameOut 2 \<lparr> po_id = 10, po_username = ''ann'' \<rparr> None empty_board (Some ''X'') None 7 None
     = Inr \<lparr> go_id = 2, go_player_x = \<lparr> po_id = 10, po_username = ''ann'' \<rparr>,
             go_player_o = None, go_board = empty_board, go_next_turn = Some ''X'',
             go_winner = None, go_created_at = 7, go_finished_at = None \<rparr>
   \<and> (\<forall>db req. isl (fst (api_create_game db req)))"
proof -
  let ?D = "sample_db (sample_game empty_board (Some ''X'') None)"
  have 1: "deserialize_board (g_board (fst (create_game ?D 10 None)))
     = [[Some '''', Some '''', Some ''''], [Some '''', Some '''', Some ''''],
        [Some '''', Some '''', Some '''']]" by (rule new_game_board)
  have 2: "deserialize_board (g_board (fst (create_game ?D 10 None))) \<noteq> empty_board"
    by (simp add: new_game_board empty_board_cells)
  have m: "get_player ?D 10 = Some (10, ''ann'')"
    by (simp add: get_player_def sample_db_def)
  have x: "get_player (snd (create_game ?D 10 None)) 10 = Some (10, ''ann'')"
    by (simp add: get_player_def create_game_def Let_def sample_db_def)
  have gx: "g_player_x_id (fst (create_game ?D 10 None)) = 10"
    "g_player_o_id (fst (create_game ?D 10 None)) = None"
    by (simp_all add: create_game_def Let_def)
  have 3: "fst (api_create_game ?D \<lparr> gc_player_x_id = 10, gc_player_o_id = None \<rparr>)
     = Inl (Uncaught ValidationError)"
    by (simp add: api_create_game_def m split_beta Let_def x new_game_rejected_by_GameOut gx)
  have 4: "GameOut 2 \<lparr> po_id = 10, po_username = ''ann'' \<rparr> None empty_board (Some ''X'') None 7 None
     = Inr \<lparr> go_id = 2, go_player_x = \<lparr> po_id = 10, po_username = ''ann'' \<rparr>,
             go_player_o = None, go_board = empty_board, go_next_turn = Some ''X'',
             go_winner = None, go_created_at = 7, go_finished_at = None \<rparr>"
    by (simp add: GameOut_def symbol_or_none_def empty_board_cells)
  have 5: "\<forall>db req. isl (fst (api_create_game db req))"
    by (intro allI) (rule api_create_game_raises)
  from 1 2 3 4 5 show ?thesis by (intro conjI)
qed

section \<open>The state after an accepted move\<close>



section \<open>The move on list objects: a new board, the old one untouched\<close>

lemma read_rows_Some_Cons:
  "read_rows st rs = Some (c # b) \<Longrightarrow>
     \<exists>r rs'. rs = r # rs' \<and> objs st r = Some (CellList c) \<and> read_rows st rs' = Some b"
  by (cases rs) (auto split: option.splits pyobj.splits)

lemma read_rows_Some_Nil: "read_rows st rs = Some [] \<Longrightarrow> rs = []"
  by (cases rs) (auto split: option.splits pyobj.splits)

lemma read_rows_3:
  assumes "read_rows st rs = Some [c0, c1, c2]"
  obtains r0 r1 r2 where "rs = [r0, r1, r2]" "objs st r0 = Some (CellList c0)"
    "objs st r1 = Some (CellList c1)" "objs st r2 = Some (CellList c2)"
proof -
  from read_rows_Some_Cons [OF assms] obtain r0 rs0 where
    0: "rs = r0 # rs0" "objs st r0 = Some (CellList c0)" "read_rows st rs0 = Some [c1, c2]" by blast
  from read_rows_Some_Cons [OF 0(3)] obtain r1 rs1 where
    1: "rs0 = r1 # rs1" "objs st r1 = Some (CellList c1)" "read_rows st rs1 = Some [c2]" by blast
  from read_rows_Some_Cons [OF 1(3)] obtain r2 rs2 where
    2: "rs1 = r2 # rs2" "objs st r2 = Some (CellList c2)" "read_rows st rs2 = Some []" by blast
  from read_rows_Some_Nil [OF 2(3)] 0 1 2 that show thesis by simp
qed

text \<open>The three copies, the new board and the store after them.\<close>

lemma copy_three_rows:
  assumes "objs st r0 = Some (CellList c0)" "objs st r1 = Some (CellList c1)"
    "objs st r2 = Some (CellList c2)" "r0 < fresh st" "r1 < fresh st" "r2 < fresh st"
  shows "copy_rows st [r0, r1, r2] =
     Inr ([fresh st, Suc (fresh st), Suc (Suc (fresh st))],
          st\<lparr> objs := (objs st)(fresh st \<mapsto> CellList c0, Suc (fresh st) \<mapsto> CellList c1,
                                   Suc (Suc (fresh st)) \<mapsto> CellList c2),
               fresh := Suc (Suc (Suc (fresh st))) \<rparr>)"
  using assms by (simp add: alloc_def)

lemma make_move_store_rows:
  assumes rows: "objs st a = Some (RowList [r0, r1, r2])"
    "objs st r0 = Some (CellList c0)" "objs st r1 = Some (CellList c1)"
    "objs st r2 = Some (CellList c2)"
    and below: "r0 < fresh st" "r1 < fresh st" "r2 < fresh st" "a < fresh st"
    and len: "length c0 = 3" "length c1 = 3" "length c2 = 3"
    and rng: "0 \<le> x" "x < 3" "0 \<le> y" "y < 3"
  shows "\<exists>st'. make_move_store st a x y s = Inr (fresh st + 3, st')
     \<and> board_at st' (fresh st + 3) = Some ([c0, c1, c2][nat x := ([c0, c1, c2] ! nat x)[nat y := Some s]])
     \<and> (\<forall>p<fresh st. objs st' p = objs st p)"
proof -
  let ?f = "fresh st"
  let ?st1 = "st\<lparr> objs := (objs st)(?f \<mapsto> CellList c0, Suc ?f \<mapsto> CellList c1,
                                   Suc (Suc ?f) \<mapsto> CellList c2),
               fresh := Suc (Suc (Suc ?f)) \<rparr>"
  have cp: "copy_rows st [r0, r1, r2] = Inr ([?f, Suc ?f, Suc (Suc ?f)], ?st1)"
    using rows(2-4) below(1-3) by (rule copy_three_rows)
  from rng have xs: "x = 0 \<or> x = 1 \<or> x = 2" by (simp add: in_range3)
  from rng have sy: "\<And>c. length c = 3 \<Longrightarrow> setitem c y (Some s) = Inr (c[nat y := Some s])"
    by (simp add: setitem_in_range)
  from xs show ?thesis
  proof (elim disjE)
    assume x: "x = 0"
    show ?thesis
      by (simp add: make_move_store_def rows cp alloc_def x getitem_def py_index_def sy len
          board_at_def del: copy_rows.simps)
  next
    assume x: "x = 1"
    show ?thesis
      by (simp add: make_move_store_def rows cp alloc_def x getitem_def py_index_def sy len
          board_at_def del: copy_rows.simps)
  next
    assume x: "x = 2"
    show ?thesis
      by (simp add: make_move_store_def rows cp alloc_def x getitem_def py_index_def sy len
          board_at_def del: copy_rows.simps)
  qed
qed

lemma read_rows_same:
  "\<forall>r \<in> set rs. objs st' r = objs st r \<Longrightarrow> read_rows st' rs = read_rows st rs"
  by (induction rs) (simp_all split: option.splits pyobj.splits)

lemma board_at_same:
  assumes al: "board_allocated st a" and same: "\<forall>p<fresh st. objs st' p = objs st p"
  shows "board_at st' a = board_at st a"
proof -
  from al have a: "a < fresh st" by (simp add: board_allocated_def)
  from al obtain rs where rs: "objs st a = Some (RowList rs)" and below: "\<forall>r \<in> set rs. r < fresh st"
    by (auto simp add: board_allocated_def list_all_iff split: option.splits pyobj.splits)
  from a same rs have rs': "objs st' a = Some (RowList rs)" by simp
  from below same have "\<forall>r \<in> set rs. objs st' r = objs st r" by simp
  then have "read_rows st' rs = read_rows st rs" by (rule read_rows_same)
  then show ?thesis by (simp add: board_at_def rs rs')
qed

lemma moved_board_cells:
  assumes b: "is_board b" and rng: "0 \<le> x" "x < 3" "0 \<le> y" "y < 3"
  shows "b[nat x := (b ! nat x)[nat y := Some s]] ! nat x ! nat y = Some s"
    and "i < 3 \<Longrightarrow> j < 3 \<Longrightarrow> (i, j) \<noteq> (nat x, nat y) \<Longrightarrow>
           b[nat x := (b ! nat x)[nat y := Some s]] ! i ! j = b ! i ! j"
proof -
  from b have lb: "length b = 3" by (simp add: is_board_def)
  from rng have nx: "nat x < 3" and ny: "nat y < 3" by simp_all
  from b nx have lr: "length (b ! nat x) = 3" by (rule is_board_row)
  from lb lr nx ny show "b[nat x := (b ! nat x)[nat y := Some s]] ! nat x ! nat y = Some s"
    by simp
  assume "i < 3" "j < 3" "(i, j) \<noteq> (nat x, nat y)"
  with lb lr nx ny show "b[nat x := (b ! nat x)[nat y := Some s]] ! i ! j = b ! i ! j"
    by (cases "i = nat x") (simp_all add: nth_list_update)
qed

text \<open>
  Claim C10. For every 3 by 3 board, in-range coordinates and symbol, \<open>make_move\<close> returns a
  new board object: its address and those of its rows are not among the objects that existed
  before, it holds the given symbol at \<open>(x, y)\<close> and the cells of the input board everywhere
  else, and every object that existed before the call, the input board and its rows included,
  is unchanged. Nothing is asked of the target cell: when it is occupied, the prior symbol is
  overwritten in the new board and no error is raised.
\<close>

theorem make_move_fresh_board:
  assumes ba: "board_at st a = Some b" and al: "board_allocated st a" and ib: "is_board b"
    and rng: "0 \<le> x" "x < 3" "0 \<le> y" "y < 3"
  shows "\<exists>a' st' b'. make_move_store st a x y s = Inr (a', st')
     \<and> make_move b x y s = Inr b'
     \<and> board_at st' a' = Some b'
     \<and> is_board b'
     \<and> b' ! nat x ! nat y = Some s
     \<and> (\<forall>i<3. \<forall>j<3. (i, j) \<noteq> (nat x, nat y) \<longrightarrow> b' ! i ! j = b ! i ! j)
     \<and> fresh st \<le> a'
     \<and> (\<forall>p<fresh st. objs st' p = objs st p)
     \<and> board_at st' a = Some b"
proof -
  let ?b' = "b[nat x := (b ! nat x)[nat y := Some s]]"
  from ib obtain c0 c1 c2 where b: "b = [c0, c1, c2]"
    and len: "length c0 = 3" "length c1 = 3" "length c2 = 3"
    by (rule is_board_cases)
  from ba obtain rs where rs: "objs st a = Some (RowList rs)" and rd: "read_rows st rs = Some [c0, c1, c2]"
    by (auto simp add: board_at_def b split: option.splits pyobj.splits)
  from rd obtain r0 r1 r2 where rows: "rs = [r0, r1, r2]" "objs st r0 = Some (CellList c0)"
    "objs st r1 = Some (CellList c1)" "objs st r2 = Some (CellList c2)"
    by (rule read_rows_3)
  from al rs rows(1) have below: "r0 < fresh st" "r1 < fresh st" "r2 < fresh st" "a < fresh st"
    by (simp_all add: board_allocated_def)
  from rs rows(1) have ra: "objs st a = Some (RowList [r0, r1, r2])" by simp
  have "\<exists>st'. make_move_store st a x y s = Inr (fresh st + 3, st')
     \<and> board_at st' (fresh st + 3) = Some ?b'
     \<and> (\<forall>p<fresh st. objs st' p = objs st p)"
    unfolding b using ra rows(2-4) below len rng by (rule make_move_store_rows)
  then obtain st' where
    mv: "make_move_store st a x y s = Inr (fresh st + 3, st')"
    and nb: "board_at st' (fresh st + 3) = Some ?b'"
    and same: "\<forall>p<fresh st. objs st' p = objs st p"
    by (elim exE conjE)
  have mm: "make_move b x y s = Inr ?b'" using ib rng by (rule make_move_board)
  from ib mm rng have ib': "is_board ?b'" by (rule is_board_make_move)
  have c1: "?b' ! nat x ! nat y = Some s" using ib rng by (rule moved_board_cells(1))
  have c2: "\<forall>i<3. \<forall>j<3. (i, j) \<noteq> (nat x, nat y) \<longrightarrow> ?b' ! i ! j = b ! i ! j"
    by (intro allI impI) (rule moved_board_cells(2) [OF ib rng])
  from board_at_same [OF al same] ba have old: "board_at st' a = Some b" by simp
  have fr: "fresh st \<le> fresh st + 3" by simp
  show ?thesis
    by (intro exI conjI) (fact mv mm nb ib' c1 c2 fr same old)+
qed

theorem make_move_fresh_board_witness:
  "board_at sample_store 3 = Some [[Some ''X'', None, None], [None, Some ''O'', None], [None, None, None]]
   \<and> board_allocated sample_store 3
   \<and> (\<exists>a' st'. make_move_store sample_store 3 0 0 ''O'' = Inr (a', st')
         \<and> board_at st' a' = Some [[Some ''O'', None, None], [None, Some ''O'', None], [None, None, None]]
         \<and> board_at st' 3 = Some [[Some ''X'', None, None], [None, Some ''O'', None], [None, None, None]])"
proof -
  let ?b = "[[Some ''X'', None, None], [None, Some ''O'', None], [None, None, None]]"
  have ba: "board_at sample_store 3 = Some ?b" by (simp add: board_at_def sample_store_def)
  have al: "board_allocated sample_store 3" by (simp add: board_allocated_def sample_store_def)
  have ib: "is_board ?b" by (simp add: is_board_def)
  from make_move_fresh_board [OF ba al ib, of 0 0 "''O''"] obtain a' st' b' where
    "make_move_store sample_store 3 0 0 ''O'' = Inr (a', st')"
    "make_move ?b 0 0 ''O'' = Inr b'" "board_at st' a' = Some b'" "board_at st' 3 = Some ?b"
    by auto
  moreover from this(2) have "b' = [[Some ''O'', None, None], [None, Some ''O'', None], [None, None, None]]"
    by (simp add: play_eval)
  ultimately show ?thesis using ba al by blast
qed

end
